theory Spec2Isabelle
  imports Main
begin

section \<open>Data model\<close>

text \<open>
  The ingestion and enrichment pipeline of the job board backend
  (\<^verbatim>\<open>app/services/ingestion_service.py\<close>, \<^verbatim>\<open>app/services/enrichment_service.py\<close>,
  \<^verbatim>\<open>app/adapters/supabase_adapter.py\<close>, \<^verbatim>\<open>app/routers/admin.py\<close>, \<^verbatim>\<open>app/scheduler.py\<close>).

  Python exceptions are values of \<open>exn\<close>; only subclasses of \<^verbatim>\<open>Exception\<close> are modelled,
  which is what every \<^verbatim>\<open>except Exception\<close> of the source catches.
\<close>

datatype exn = KeyError string | APIError string | RuntimeError string

text \<open>\<^verbatim>\<open>str(exc)\<close>: a \<^verbatim>\<open>KeyError\<close> prints the quoted key, the others their message.\<close>

fun str :: "exn \<Rightarrow> string" where
  "str (KeyError k) = [CHR 0x27] @ k @ [CHR 0x27]"
| "str (APIError m) = m"
| "str (RuntimeError m) = m"

text \<open>
  An embedding is a \<^verbatim>\<open>list[float]\<close>. Its components are only stored and copied, never
  computed with, so they are kept as opaque numbers.
\<close>

type_synonym vector = "int list"

text \<open>A row of the \<^verbatim>\<open>jobs\<close> table. \<open>None\<close> is SQL \<^verbatim>\<open>NULL\<close>.\<close>

record job =
  job_id :: nat
  provider_id :: string
  title :: string
  description_raw :: string
  skills_required :: "string list option"
  external_id :: "string option"
  external_apply_url :: "string option"
  company_name :: "string option"
  description_hash :: "string option"
  status :: string
  resume_guide_generated :: "string list option"
  prep_guide_generated :: "(string \<times> string) list option"
  embedding :: "vector option"
  salary_range :: "string option"

text \<open>
  The dict that \<^verbatim>\<open>ingest_jobs\<close> hands to \<^verbatim>\<open>create_job\<close>: exactly these nine keys. The
  database fills in the id and leaves every other column \<^verbatim>\<open>NULL\<close>.
\<close>

record job_insert =
  ins_provider_id :: string
  ins_title :: string
  ins_description_raw :: string
  ins_skills_required :: "string list"
  ins_external_id :: string
  ins_external_apply_url :: "string option"
  ins_company_name :: string
  ins_description_hash :: "string option"
  ins_status :: string

text \<open>The dict handed to \<^verbatim>\<open>update_job\<close> is a list of column assignments.\<close>

datatype job_column =
    Resume_guide_generated "string list option"
  | Prep_guide_generated "(string \<times> string) list option"
  | Skills_required "string list option"
  | Embedding "vector option"
  | Salary_range "string option"
  | Status string

fun set_column :: "job_column \<Rightarrow> job \<Rightarrow> job" where
  "set_column (Resume_guide_generated v) j = j\<lparr>resume_guide_generated := v\<rparr>"
| "set_column (Prep_guide_generated v) j = j\<lparr>prep_guide_generated := v\<rparr>"
| "set_column (Skills_required v) j = j\<lparr>skills_required := v\<rparr>"
| "set_column (Embedding v) j = j\<lparr>embedding := v\<rparr>"
| "set_column (Salary_range v) j = j\<lparr>salary_range := v\<rparr>"
| "set_column (Status v) j = j\<lparr>status := v\<rparr>"

text \<open>
  A row of \<^verbatim>\<open>scraping_logs\<close>. \<open>log_updates\<close> is not a column: it counts the
  \<^verbatim>\<open>update_scraping_log\<close> calls that have written the row.
\<close>

record scraping_log =
  log_id :: nat
  source_name :: string
  log_status :: string
  started_at :: string
  finished_at :: "string option"
  jobs_found :: "nat option"
  jobs_new :: "nat option"
  jobs_skipped :: "nat option"
  error_count :: "nat option"
  error_message :: "string option"
  traceback :: "string option"
  log_updates :: nat

datatype log_column =
    Log_status string
  | Jobs_found nat
  | Jobs_new nat
  | Jobs_skipped nat
  | Error_count nat
  | Error_message string
  | Traceback string
  | Finished_at string

fun set_log_column :: "log_column \<Rightarrow> scraping_log \<Rightarrow> scraping_log" where
  "set_log_column (Log_status v) l = l\<lparr>log_status := v\<rparr>"
| "set_log_column (Jobs_found v) l = l\<lparr>jobs_found := Some v\<rparr>"
| "set_log_column (Jobs_new v) l = l\<lparr>jobs_new := Some v\<rparr>"
| "set_log_column (Jobs_skipped v) l = l\<lparr>jobs_skipped := Some v\<rparr>"
| "set_log_column (Error_count v) l = l\<lparr>error_count := Some v\<rparr>"
| "set_log_column (Error_message v) l = l\<lparr>error_message := Some v\<rparr>"
| "set_log_column (Traceback v) l = l\<lparr>traceback := Some v\<rparr>"
| "set_log_column (Finished_at v) l = l\<lparr>finished_at := Some v\<rparr>"

text \<open>
  A raw posting is a dict. A key the source reads with \<^verbatim>\<open>job_data[...]\<close> or
  \<^verbatim>\<open>job_data.get(...)\<close> may be absent, which is \<open>None\<close> here.
\<close>

record raw_posting =
  rp_external_id :: "string option"
  rp_title :: "string option"
  rp_description_raw :: "string option"
  rp_skills_required :: "string list option"
  rp_company_name :: "string option"
  rp_external_apply_url :: "string option"

text \<open>\<^verbatim>\<open>AIEnrichment\<close> of \<^verbatim>\<open>app/domain/models.py\<close>; a prep question is (question, answer strategy).\<close>

record ai_enrichment =
  resume_guide :: "string list"
  prep_questions :: "(string \<times> string) list"
  extracted_skills :: "string list"
  estimated_salary_range :: "string option"

text \<open>The stats dict of \<^verbatim>\<open>ingest_jobs\<close>; the key \<^verbatim>\<open>error\<close> exists only after a failed fetch.\<close>

record stats =
  fetched :: nat
  new :: nat
  skipped :: nat
  errors :: nat
  dedup_hits :: nat
  error :: "string option"

section \<open>The world outside the process\<close>

text \<open>
  Everything the pipeline cannot decide itself is a field of \<open>env\<close>: what the scraper
  returns, what the \<open>n\<close>-th call of the generation and embedding capabilities answers,
  whether the \<open>n\<close>-th storage call raises, the hash function, \<^verbatim>\<open>str.lower\<close>, the clock and the
  traceback formatter. The state holds the two tables and counts the calls made so far.
\<close>

record env =
  COMPANY_NAME :: string
  scraper_answer :: "exn + raw_posting list"
  ai_answer :: "nat \<Rightarrow> string \<Rightarrow> string list \<Rightarrow> string \<Rightarrow> string option \<Rightarrow> exn + ai_enrichment"
  emb_answer :: "nat \<Rightarrow> string \<Rightarrow> exn + vector"
  db_fails :: "nat \<Rightarrow> bool"
  sha256_hexdigest :: "string \<Rightarrow> string"
  str_lower :: "string \<Rightarrow> string"
  clock :: "nat \<Rightarrow> string"
  traceback_text :: "exn \<Rightarrow> string"

record state =
  jobs :: "job list"
  scraping_logs :: "scraping_log list"
  db_calls :: nat
  ai_calls :: nat
  emb_calls :: nat
  clock_reads :: nat
  logged_errors :: nat
  slept :: nat

type_synonym 'a io = "state \<Rightarrow> (exn + 'a) \<times> state"

definition return_io :: "'a \<Rightarrow> 'a io" where
  "return_io a s = (Inr a, s)"

definition raise_io :: "exn \<Rightarrow> 'a io" where
  "raise_io e s = (Inl e, s)"

definition bind_io :: "'a io \<Rightarrow> ('a \<Rightarrow> 'b io) \<Rightarrow> 'b io" where
  "bind_io m f s = (case m s of (Inl e, s') \<Rightarrow> (Inl e, s') | (Inr a, s') \<Rightarrow> f a s')"

text \<open>\<^verbatim>\<open>try: m  except Exception: h\<close>\<close>

definition try_except :: "'a io \<Rightarrow> (exn \<Rightarrow> 'a io) \<Rightarrow> 'a io" where
  "try_except m h s = (case m s of (Inl e, s') \<Rightarrow> h e s' | (Inr a, s') \<Rightarrow> (Inr a, s'))"

text \<open>\<^verbatim>\<open>logger.error\<close> and \<^verbatim>\<open>logger.exception\<close>: one more error record in the log.\<close>

definition log_error :: "unit io" where
  "log_error s = (Inr (), s\<lparr>logged_errors := Suc (logged_errors s)\<rparr>)"

text \<open>\<^verbatim>\<open>datetime.now(timezone.utc).isoformat()\<close>\<close>

definition now_iso :: "env \<Rightarrow> string io" where
  "now_iso env s = (Inr (clock env (clock_reads s)), s\<lparr>clock_reads := Suc (clock_reads s)\<rparr>)"

section \<open>SupabaseAdapter\<close>

text \<open>
  Every adapter method is one request to the store. The request either raises (the
  store is unreachable, a constraint is violated, ...) or is carried out on the table.
\<close>

definition db_request :: "env \<Rightarrow> (state \<Rightarrow> (exn + 'a) \<times> state) \<Rightarrow> 'a io" where
  "db_request env run s =
     (let s1 = s\<lparr>db_calls := Suc (db_calls s)\<rparr>
      in if db_fails env (db_calls s) then (Inl (APIError ''request failed''), s1)
         else run s1)"

text \<open>
  \<^verbatim>\<open>.maybe_single().execute()\<close>: no row is \<^verbatim>\<open>None\<close>, one row is that row, and the client
  raises when the query matches more than one row.
\<close>

fun maybe_single :: "'a list \<Rightarrow> exn + 'a option" where
  "maybe_single [] = Inr None"
| "maybe_single [r] = Inr (Some r)"
| "maybe_single (r # r' # rs) = Inl (APIError ''multiple rows returned'')"

text \<open>Ids are generated by the store; a new row gets one that no row of the table has.\<close>

fun max_id :: "job list \<Rightarrow> nat" where
  "max_id [] = 0"
| "max_id (j # js) = max (job_id j) (max_id js)"

definition fresh_id :: "job list \<Rightarrow> nat" where
  "fresh_id js = Suc (max_id js)"

definition new_row :: "nat \<Rightarrow> job_insert \<Rightarrow> job" where
  "new_row i d =
     \<lparr>job_id = i, provider_id = ins_provider_id d, title = ins_title d,
      description_raw = ins_description_raw d,
      skills_required = Some (ins_skills_required d),
      external_id = Some (ins_external_id d),
      external_apply_url = ins_external_apply_url d,
      company_name = Some (ins_company_name d),
      description_hash = ins_description_hash d, status = ins_status d,
      resume_guide_generated = None, prep_guide_generated = None,
      embedding = None, salary_range = None\<rparr>"

definition create_job :: "env \<Rightarrow> job_insert \<Rightarrow> job io" where
  "create_job env d =
     db_request env (\<lambda>s.
       let row = new_row (fresh_id (jobs s)) d
       in (Inr row, s\<lparr>jobs := jobs s @ [row]\<rparr>))"

definition get_job :: "env \<Rightarrow> nat \<Rightarrow> job option io" where
  "get_job env jid =
     db_request env (\<lambda>s. (maybe_single (filter (\<lambda>j. job_id j = jid) (jobs s)), s))"

definition update_job :: "env \<Rightarrow> nat \<Rightarrow> job_column list \<Rightarrow> unit io" where
  "update_job env jid data =
     db_request env (\<lambda>s.
       (Inr (), s\<lparr>jobs := map (\<lambda>j. if job_id j = jid then fold set_column data j else j) (jobs s)\<rparr>))"

definition find_job_by_external_id :: "env \<Rightarrow> string \<Rightarrow> string \<Rightarrow> job option io" where
  "find_job_by_external_id env company ext_id =
     db_request env (\<lambda>s.
       (maybe_single (filter (\<lambda>j. company_name j = Some company \<and> external_id j = Some ext_id) (jobs s)), s))"

text \<open>\<^verbatim>\<open>.eq("description_hash", h).not_.is_("embedding", "null").limit(1).maybe_single()\<close>\<close>

definition find_job_by_description_hash :: "env \<Rightarrow> string \<Rightarrow> job option io" where
  "find_job_by_description_hash env h =
     db_request env (\<lambda>s.
       (maybe_single (take 1 (filter (\<lambda>j. description_hash j = Some h \<and> embedding j \<noteq> None) (jobs s))), s))"

fun max_log_id :: "scraping_log list \<Rightarrow> nat" where
  "max_log_id [] = 0"
| "max_log_id (l # ls) = max (log_id l) (max_log_id ls)"

text \<open>The row the store creates for the three columns \<^verbatim>\<open>ingest_jobs\<close> supplies.\<close>

definition new_log_row :: "nat \<Rightarrow> string \<Rightarrow> string \<Rightarrow> string \<Rightarrow> scraping_log" where
  "new_log_row i src st started =
     \<lparr>log_id = i, source_name = src, log_status = st, started_at = started,
      finished_at = None, jobs_found = None, jobs_new = None, jobs_skipped = None,
      error_count = None, error_message = None, traceback = None, log_updates = 0\<rparr>"

definition insert_scraping_log :: "env \<Rightarrow> string \<Rightarrow> string \<Rightarrow> string \<Rightarrow> scraping_log io" where
  "insert_scraping_log env src st started =
     db_request env (\<lambda>s.
       let row = new_log_row (Suc (max_log_id (scraping_logs s))) src st started
       in (Inr row, s\<lparr>scraping_logs := scraping_logs s @ [row]\<rparr>))"

definition update_scraping_log :: "env \<Rightarrow> nat \<Rightarrow> log_column list \<Rightarrow> unit io" where
  "update_scraping_log env lid data =
     db_request env (\<lambda>s.
       (Inr (), s\<lparr>scraping_logs :=
          map (\<lambda>l. if log_id l = lid
                    then (fold set_log_column data l)\<lparr>log_updates := Suc (log_updates l)\<rparr>
                    else l) (scraping_logs s)\<rparr>))"

section \<open>The generation and embedding capabilities\<close>

definition generate_enrichment ::
  "env \<Rightarrow> string \<Rightarrow> string list \<Rightarrow> string \<Rightarrow> string option \<Rightarrow> ai_enrichment io" where
  "generate_enrichment env description skills ttl company s =
     (ai_answer env (ai_calls s) description skills ttl company,
      s\<lparr>ai_calls := Suc (ai_calls s)\<rparr>)"

definition encode :: "env \<Rightarrow> string \<Rightarrow> vector io" where
  "encode env text s = (emb_answer env (emb_calls s) text, s\<lparr>emb_calls := Suc (emb_calls s)\<rparr>)"

section \<open>EnrichmentService.enrich\_job\<close>

text \<open>
  The body of the \<^verbatim>\<open>try\<close> block. \<^verbatim>\<open>job.get("skills_required") or []\<close> turns a null column
  into the empty list; \<^verbatim>\<open>job.get("company_name", "")\<close> hands a null column on as \<^verbatim>\<open>None\<close>. When
  no row has the id, the method logs an error and returns.
\<close>

definition enrich_job_try :: "env \<Rightarrow> nat \<Rightarrow> unit io" where
  "enrich_job_try env jid =
     bind_io (get_job env jid) (\<lambda>found.
       case found of
         None \<Rightarrow> log_error
       | Some j \<Rightarrow>
           let description = description_raw j;
               skills = (case skills_required j of None \<Rightarrow> [] | Some l \<Rightarrow> l);
               ttl = title j;
               company = company_name j
           in bind_io (generate_enrichment env description skills ttl company) (\<lambda>enrichment.
              bind_io (encode env description) (\<lambda>emb.
                let prep_data = prep_questions enrichment;
                    final_skills = (if skills \<noteq> [] then skills else extracted_skills enrichment)
                in update_job env jid
                     [Resume_guide_generated (Some (resume_guide enrichment)),
                      Prep_guide_generated (Some prep_data),
                      Skills_required (Some final_skills),
                      Embedding (Some emb),
                      Salary_range (estimated_salary_range enrichment)])))"

text \<open>\<^verbatim>\<open>except Exception: logger.exception(...)\<close>: the handler logs and returns.\<close>

definition enrich_job :: "env \<Rightarrow> nat \<Rightarrow> unit io" where
  "enrich_job env jid = try_except (enrich_job_try env jid) (\<lambda>e. log_error)"

section \<open>IngestionService.ingest\_jobs\<close>

definition INGESTION_PROVIDER_ID :: string where
  "INGESTION_PROVIDER_ID = ''00000000-0000-4000-a000-000000000001''"

text \<open>Lines 143 to 151: no dedup hit, run the full enrichment, then activate.\<close>

definition enrich_and_activate :: "env \<Rightarrow> job \<Rightarrow> stats \<Rightarrow> stats io" where
  "enrich_and_activate env created st =
     bind_io (enrich_job env (job_id created)) (\<lambda>_.
     bind_io (update_job env (job_id created) [Status ''active'']) (\<lambda>_.
       return_io (st\<lparr>new := new st + 1\<rparr>)))"

text \<open>Lines 128 to 141: copy the donor's enrichment, skipping the AI call.\<close>

definition clone_enrichment :: "env \<Rightarrow> job \<Rightarrow> job \<Rightarrow> stats \<Rightarrow> stats io" where
  "clone_enrichment env created donor st =
     bind_io (update_job env (job_id created)
                [Resume_guide_generated (resume_guide_generated donor),
                 Prep_guide_generated (prep_guide_generated donor),
                 Embedding (embedding donor),
                 Status ''active'']) (\<lambda>_.
       return_io (st\<lparr>new := new st + 1, dedup_hits := dedup_hits st + 1\<rparr>))"

text \<open>The dict literal of lines 112 to 122.\<close>


definition new_job_data ::
  "raw_posting \<Rightarrow> string \<Rightarrow> string \<Rightarrow> string \<Rightarrow> string \<Rightarrow> string option \<Rightarrow> job_insert" where
  "new_job_data job_data company ext_id ttl desc_raw desc_hash =
     \<lparr>ins_provider_id = INGESTION_PROVIDER_ID,
      ins_title = ttl,
      ins_description_raw = desc_raw,
      ins_skills_required = (case rp_skills_required job_data of None \<Rightarrow> [] | Some l \<Rightarrow> l),
      ins_external_id = ext_id,
      ins_external_apply_url = rp_external_apply_url job_data,
      ins_company_name = company,
      ins_description_hash = desc_hash,
      ins_status = ''processing''\<rparr>"

text \<open>
  The body of the \<^verbatim>\<open>try\<close> block of one loop iteration. The counters are incremented
  after the last call that can raise, so the value returned here is the dict as the
  iteration leaves it, and an exception leaves the dict as the iteration found it.
\<close>

definition ingest_posting_try ::
  "env \<Rightarrow> raw_posting \<Rightarrow> string \<Rightarrow> string \<Rightarrow> stats \<Rightarrow> stats io" where
  "ingest_posting_try env job_data company ext_id st =
     bind_io (find_job_by_external_id env company ext_id) (\<lambda>existing.
       case existing of
         Some _ \<Rightarrow> return_io (st\<lparr>skipped := skipped st + 1\<rparr>)
       | None \<Rightarrow>
           let desc_raw = (case rp_description_raw job_data of None \<Rightarrow> [] | Some d \<Rightarrow> d);
               desc_hash = (if desc_raw \<noteq> [] then Some (sha256_hexdigest env desc_raw) else None)
           in (case rp_title job_data of
                 None \<Rightarrow> raise_io (KeyError ''title'')
               | Some ttl \<Rightarrow>
                   bind_io (create_job env
                              (new_job_data job_data company ext_id ttl desc_raw desc_hash))
                     (\<lambda>created.
                       (case desc_hash of
                          None \<Rightarrow> enrich_and_activate env created st
                        | Some h \<Rightarrow>
                            (if h = [] then enrich_and_activate env created st
                             else bind_io (find_job_by_description_hash env h) (\<lambda>donor.
                                    (case donor of
                                       Some d \<Rightarrow> clone_enrichment env created d st
                                     | None \<Rightarrow> enrich_and_activate env created st)))))))"

text \<open>
  One iteration of \<^verbatim>\<open>for job_data in raw_jobs\<close>. The two reads before the \<^verbatim>\<open>try\<close> are
  outside the error boundary: a missing key there leaves \<^verbatim>\<open>ingest_jobs\<close> as a \<^verbatim>\<open>KeyError\<close>.
\<close>

definition ingest_posting :: "env \<Rightarrow> raw_posting \<Rightarrow> stats \<Rightarrow> stats io" where
  "ingest_posting env job_data st =
     (case rp_company_name job_data of
        None \<Rightarrow> raise_io (KeyError ''company_name'')
      | Some company \<Rightarrow>
          (case rp_external_id job_data of
             None \<Rightarrow> raise_io (KeyError ''external_id'')
           | Some ext_id \<Rightarrow>
               try_except (ingest_posting_try env job_data company ext_id st)
                 (\<lambda>e. bind_io log_error (\<lambda>_. return_io (st\<lparr>errors := errors st + 1\<rparr>)))))"

fun ingest_loop :: "env \<Rightarrow> raw_posting list \<Rightarrow> stats \<Rightarrow> stats io" where
  "ingest_loop env [] st s = (Inr st, s)"
| "ingest_loop env (job_data # rest) st s =
     (case ingest_posting env job_data st s of
        (Inl e, s') \<Rightarrow> (Inl e, s')
      | (Inr st', s') \<Rightarrow> ingest_loop env rest st' s')"

text \<open>Lines 160 to 164.\<close>

definition final_status :: "stats \<Rightarrow> string" where
  "final_status st =
     (if errors st > 0 \<and> new st > 0 then ''partial''
      else if errors st > 0 \<and> new st = 0 then ''failed''
      else ''success'')"

definition initial_stats :: stats where
  "initial_stats = \<lparr>fetched = 0, new = 0, skipped = 0, errors = 0, dedup_hits = 0, error = None\<rparr>"

definition ingest_jobs :: "env \<Rightarrow> stats io" where
  "ingest_jobs env =
     (let src = str_lower env (COMPANY_NAME env) in
      bind_io (now_iso env) (\<lambda>started.
      bind_io (insert_scraping_log env src ''running'' started) (\<lambda>log_entry.
        let lid = log_id log_entry in
        case scraper_answer env of
          Inl exc \<Rightarrow>
            let tb = traceback_text env exc in
            bind_io log_error (\<lambda>_.
            bind_io (now_iso env) (\<lambda>fin.
            bind_io (update_scraping_log env lid
                       [Log_status ''failed'', Error_message (str exc),
                        Traceback tb, Finished_at fin]) (\<lambda>_.
              return_io (initial_stats\<lparr>error := Some (str exc)\<rparr>))))
        | Inr raw_jobs \<Rightarrow>
            bind_io (ingest_loop env raw_jobs (initial_stats\<lparr>fetched := length raw_jobs\<rparr>)) (\<lambda>st.
            bind_io (now_iso env) (\<lambda>fin.
            bind_io (update_scraping_log env lid
                       [Log_status (final_status st), Jobs_found (fetched st),
                        Jobs_new (new st), Jobs_skipped (skipped st),
                        Error_count (errors st), Finished_at fin]) (\<lambda>_.
              return_io st))))))"

section \<open>The reconciliation sweep of the admin router\<close>

definition BATCH_SIZE :: nat where
  "BATCH_SIZE = 3"

definition BATCH_DELAY_SECS :: nat where
  "BATCH_DELAY_SECS = 3"

text \<open>\<^verbatim>\<open>not j.get(k)\<close>: the column is \<^verbatim>\<open>NULL\<close> or an empty list.\<close>

fun falsy :: "'a list option \<Rightarrow> bool" where
  "falsy None = True"
| "falsy (Some xs) = (xs = [])"

definition unenriched_row :: "job \<Rightarrow> bool" where
  "unenriched_row j =
     (falsy (prep_guide_generated j) \<or> falsy (resume_guide_generated j) \<or> falsy (embedding j))"

text \<open>
  The body of \<^verbatim>\<open>for job in batch\<close>; \<open>job\<close> is the row as the first query returned it, so
  its status is the one read before the sweep. The pair is (success, failed).
\<close>

definition reenrich_one :: "env \<Rightarrow> job \<Rightarrow> nat \<times> nat \<Rightarrow> (nat \<times> nat) io" where
  "reenrich_one env job c =
     try_except
       (bind_io (enrich_job env (job_id job)) (\<lambda>_.
        bind_io (if status job = ''processing''
                 then update_job env (job_id job) [Status ''active'']
                 else return_io ()) (\<lambda>_.
          return_io (Suc (fst c), snd c))))
       (\<lambda>e. bind_io log_error (\<lambda>_. return_io (fst c, Suc (snd c))))"

fun reenrich_batch :: "env \<Rightarrow> job list \<Rightarrow> nat \<times> nat \<Rightarrow> (nat \<times> nat) io" where
  "reenrich_batch env [] c s = (Inr c, s)"
| "reenrich_batch env (job # rest) c s =
     (case reenrich_one env job c s of
        (Inl e, s') \<Rightarrow> (Inl e, s')
      | (Inr c', s') \<Rightarrow> reenrich_batch env rest c' s')"

text \<open>\<^verbatim>\<open>asyncio.sleep\<close>\<close>

definition sleep :: "nat \<Rightarrow> unit io" where
  "sleep secs s = (Inr (), s\<lparr>slept := slept s + secs\<rparr>)"

text \<open>\<^verbatim>\<open>range(0, n, step)\<close>\<close>

definition range_step :: "nat \<Rightarrow> nat \<Rightarrow> nat list" where
  "range_step n step = map (\<lambda>k. k * step) [0..<(n + step - 1) div step]"

fun reenrich_batches :: "env \<Rightarrow> job list \<Rightarrow> nat list \<Rightarrow> nat \<times> nat \<Rightarrow> (nat \<times> nat) io" where
  "reenrich_batches env unenriched [] c s = (Inr c, s)"
| "reenrich_batches env unenriched (batch_start # rest) c s =
     (let batch = take BATCH_SIZE (drop batch_start unenriched)
      in case reenrich_batch env batch c s of
           (Inl e, s') \<Rightarrow> (Inl e, s')
         | (Inr c', s') \<Rightarrow>
             (case (if batch_start + BATCH_SIZE < length unenriched
                    then sleep BATCH_DELAY_SECS else return_io ()) s' of
                (Inl e, s'') \<Rightarrow> (Inl e, s'')
              | (Inr _, s'') \<Rightarrow> reenrich_batches env unenriched rest c' s''))"

definition reenrich_unenriched_jobs :: "env \<Rightarrow> (nat \<times> nat) io" where
  "reenrich_unenriched_jobs env =
     bind_io (db_request env (\<lambda>s. (Inr (jobs s), s))) (\<lambda>all_jobs.
       let unenriched = filter unenriched_row all_jobs
       in reenrich_batches env unenriched (range_step (length unenriched) BATCH_SIZE) (0, 0))"

section \<open>The cron lock of the scheduler\<close>

text \<open>
  The table \<^verbatim>\<open>cron_locks\<close> maps a lock name to \<^verbatim>\<open>locked_until\<close>. Time is counted in
  minutes from 2000-01-01T00:00:00Z, the instant \<^verbatim>\<open>_release_cron_lock\<close> writes.
\<close>

type_synonym cron_locks = "string \<Rightarrow> nat option"

definition LOCK_TTL_MINUTES :: nat where
  "LOCK_TTL_MINUTES = 30"

text \<open>
  Modelled from the spec: the stored procedure \<^verbatim>\<open>acquire_cron_lock\<close> that the scheduler
  calls by RPC is not among the sources. The spec and the docstring of
  \<^verbatim>\<open>_acquire_cron_lock\<close> describe it as one atomic conditional write: create the lock row
  if absent, or update it only if its current expiry has passed
  (\<^verbatim>\<open>locked_until < NOW()\<close>), and answer whether the row was written.
\<close>

definition acquire_cron_lock_rpc :: "nat \<Rightarrow> string \<Rightarrow> nat \<Rightarrow> cron_locks \<Rightarrow> bool \<times> cron_locks" where
  "acquire_cron_lock_rpc now p_lock_name p_ttl_minutes locks =
     (case locks p_lock_name of
        None \<Rightarrow> (True, locks(p_lock_name \<mapsto> now + p_ttl_minutes))
      | Some locked_until \<Rightarrow>
          if locked_until < now then (True, locks(p_lock_name \<mapsto> now + p_ttl_minutes))
          else (False, locks))"

text \<open>
  \<^verbatim>\<open>client.rpc(...).execute()\<close>: when the store cannot be reached (or the table is
  missing) the call raises and nothing is written; otherwise the procedure runs
  atomically at the store's time \<open>now\<close> and its answer is \<^verbatim>\<open>result.data\<close>.
\<close>

definition rpc_execute ::
  "bool \<Rightarrow> nat \<Rightarrow> string \<Rightarrow> nat \<Rightarrow> cron_locks \<Rightarrow> (exn + bool option) \<times> cron_locks" where
  "rpc_execute reachable now p_lock_name p_ttl_minutes locks =
     (if reachable
      then (case acquire_cron_lock_rpc now p_lock_name p_ttl_minutes locks of
              (b, locks') \<Rightarrow> (Inr (Some b), locks'))
      else (Inl (APIError ''cron_locks unavailable''), locks))"

definition acquire_cron_lock :: "bool \<Rightarrow> nat \<Rightarrow> string \<Rightarrow> cron_locks \<Rightarrow> bool \<times> cron_locks" where
  "acquire_cron_lock reachable now lock_name locks =
     (case rpc_execute reachable now lock_name LOCK_TTL_MINUTES locks of
        (Inr data, locks') \<Rightarrow> ((case data of Some acquired \<Rightarrow> acquired | None \<Rightarrow> False), locks')
      | (Inl exc, locks') \<Rightarrow> (True, locks'))"

text \<open>
  A group of callers racing for one lock: the atomic procedure serialises them, so a
  race is the list of calls in the order the store executes them, each with whether it
  reaches the store and the store's time at that moment.
\<close>

fun acquire_all :: "(bool \<times> nat) list \<Rightarrow> string \<Rightarrow> cron_locks \<Rightarrow> bool list \<times> cron_locks" where
  "acquire_all [] lock_name locks = ([], locks)"
| "acquire_all ((reachable, now) # calls) lock_name locks =
     (case acquire_cron_lock reachable now lock_name locks of
        (r, locks') \<Rightarrow>
          (case acquire_all calls lock_name locks' of (rs, locks'') \<Rightarrow> (r # rs, locks'')))"

section \<open>Notions used in the statements\<close>

text \<open>
  A computation keeps the view \<open>f\<close> of the state when \<open>f\<close> has the same value before and
  after it, whether it returns or raises.
\<close>

definition keeps :: "(state \<Rightarrow> 'v) \<Rightarrow> 'a io \<Rightarrow> bool" where
  "keeps f m = (\<forall>s. f (snd (m s)) = f s)"

text \<open>Whenever the computation returns, the value it returns satisfies \<open>Q\<close>.\<close>

definition returns :: "('a \<Rightarrow> bool) \<Rightarrow> 'a io \<Rightarrow> bool" where
  "returns Q m = (\<forall>s a s'. m s = (Inr a, s') \<longrightarrow> Q a)"

text \<open>
  Between two values of the stats dict, exactly one of \<open>new\<close>, \<open>skipped\<close> and \<open>errors\<close> went
  up, by one, and \<open>fetched\<close> stayed.
\<close>

definition counted_once :: "stats \<Rightarrow> stats \<Rightarrow> bool" where
  "counted_once st st' =
     (fetched st' = fetched st \<and>
      ((new st' = Suc (new st) \<and> skipped st' = skipped st \<and> errors st' = errors st) \<or>
       (new st' = new st \<and> skipped st' = Suc (skipped st) \<and> errors st' = errors st) \<or>
       (new st' = new st \<and> skipped st' = skipped st \<and> errors st' = Suc (errors st))))"

text \<open>No row has the identity key (company, external id).\<close>

definition identity_absent :: "string \<Rightarrow> string \<Rightarrow> job list \<Rightarrow> bool" where
  "identity_absent c x js =
     (filter (\<lambda>j. company_name j = Some c \<and> external_id j = Some x) js = [])"

text \<open>The already-enriched rows (non-null embedding) with description hash \<open>h\<close>, in table order.\<close>

definition enriched_with_hash :: "string \<Rightarrow> job list \<Rightarrow> job list" where
  "enriched_with_hash h js = filter (\<lambda>j. description_hash j = Some h \<and> embedding j \<noteq> None) js"

text \<open>The store answers its next \<open>k\<close> requests, counted from request number \<open>n\<close>.\<close>

definition store_answers :: "env \<Rightarrow> nat \<Rightarrow> nat \<Rightarrow> bool" where
  "store_answers env n k = (\<forall>i<k. \<not> db_fails env (n + i))"

text \<open>
  The posting names a company and an external id, and exactly one row of the table has
  that identity key.
\<close>

definition identity_unique :: "raw_posting \<Rightarrow> job list \<Rightarrow> bool" where
  "identity_unique p js =
     (\<exists>c x. rp_company_name p = Some c \<and> rp_external_id p = Some x \<and>
            length (filter (\<lambda>j. company_name j = Some c \<and> external_id j = Some x) js) = 1)"

section \<open>Sample data\<close>

text \<open>Concrete postings, answers and stores on which the statements below are run.\<close>

definition posting_a :: raw_posting where
  "posting_a = \<lparr>rp_external_id = Some ''R-1'', rp_title = Some ''Analyst'',
     rp_description_raw = Some ''Audit role'', rp_skills_required = None,
     rp_company_name = Some ''PwC'', rp_external_apply_url = None\<rparr>"

definition posting_b :: raw_posting where
  "posting_b = posting_a\<lparr>rp_external_id := Some ''R-2''\<rparr>"

definition posting_untitled :: raw_posting where
  "posting_untitled = posting_a\<lparr>rp_external_id := Some ''R-3'', rp_title := None\<rparr>"

definition sample_enrichment :: ai_enrichment where
  "sample_enrichment = \<lparr>resume_guide = [''g1'', ''g2'', ''g3'', ''g4'', ''g5''],
     prep_questions = [(''q1'', ''a1''), (''q2'', ''a2''), (''q3'', ''a3''), (''q4'', ''a4''),
                       (''q5'', ''a5'')],
     extracted_skills = [''sql''], estimated_salary_range = Some ''10-12''\<rparr>"

text \<open>Lower-casing of the letters A to Z, which is what \<^verbatim>\<open>str.lower\<close> does on an ASCII name.\<close>

definition ascii_lower :: "string \<Rightarrow> string" where
  "ascii_lower cs =
     map (\<lambda>c. let n = (of_char c :: nat) in if 65 \<le> n \<and> n \<le> 90 then char_of (n + 32) else c) cs"

definition pwc_env :: env where
  "pwc_env = \<lparr>COMPANY_NAME = ''PwC'', scraper_answer = Inr [posting_a, posting_b],
     ai_answer = (\<lambda>n d sk t c. Inr sample_enrichment), emb_answer = (\<lambda>n t. Inr [1, 2, 3]),
     db_fails = (\<lambda>n. False), sha256_hexdigest = (\<lambda>d. ''#'' @ d),
     str_lower = ascii_lower,
     clock = (\<lambda>n. ''2024-01-01T22:00''), traceback_text = (\<lambda>e. ''Traceback: '' @ str e)\<rparr>"

definition empty_store :: state where
  "empty_store = \<lparr>jobs = [], scraping_logs = [], db_calls = 0, ai_calls = 0, emb_calls = 0,
     clock_reads = 0, logged_errors = 0, slept = 0\<rparr>"

text \<open>A row left at \<^verbatim>\<open>processing\<close> with no enrichment, and a store holding only that row.\<close>

definition stuck_job :: job where
  "stuck_job = new_row 1 \<lparr>ins_provider_id = INGESTION_PROVIDER_ID, ins_title = ''Analyst'',
     ins_description_raw = ''Audit role'', ins_skills_required = [],
     ins_external_id = ''R-1'', ins_external_apply_url = None, ins_company_name = ''PwC'',
     ins_description_hash = Some ''#Audit role'', ins_status = ''processing''\<rparr>"

definition stuck_store :: state where
  "stuck_store = empty_store\<lparr>jobs := [stuck_job]\<rparr>"

text \<open>A fetch with a repeated posting and one without title.\<close>

definition mixed_env :: env where
  "mixed_env = pwc_env\<lparr>scraper_answer := Inr [posting_a, posting_b, posting_untitled, posting_a]\<rparr>"

text \<open>A scraper that raises; and the same while the store fails on its second request.\<close>

definition fetch_down_env :: env where
  "fetch_down_env = pwc_env\<lparr>scraper_answer := Inl (RuntimeError ''timeout'')\<rparr>"

definition fetch_and_store_down_env :: env where
  "fetch_and_store_down_env = fetch_down_env\<lparr>db_fails := (\<lambda>n. n = 1)\<rparr>"

text \<open>A generation capability that raises on every call.\<close>

definition ai_down_env :: env where
  "ai_down_env = pwc_env\<lparr>ai_answer := (\<lambda>n d sk t c. Inl (RuntimeError ''rate limit''))\<rparr>"

text \<open>The store after \<open>posting_a\<close> has been ingested and enriched.\<close>

definition store_with_a :: state where
  "store_with_a = snd (ingest_posting pwc_env posting_a initial_stats empty_store)"

text \<open>A generation capability whose first call raises and whose later calls answer.\<close>

definition flaky_ai_env :: env where
  "flaky_ai_env = pwc_env\<lparr>ai_answer :=
     (\<lambda>n d sk t c. if n = 0 then Inl (RuntimeError ''rate limit'') else Inr sample_enrichment)\<rparr>"

section \<open>Basic facts about the store and the effect combinators\<close>

lemma job_id_le_max_id: "j \<in> set js \<Longrightarrow> job_id j \<le> max_id js"
  by (induction js) auto

lemma fresh_id_unused: "j \<in> set js \<Longrightarrow> job_id j \<noteq> fresh_id js"
  using job_id_le_max_id [of j js] by (simp add: fresh_id_def)

lemma filter_fresh_id: "filter (\<lambda>j. job_id j = fresh_id js) js = []"
  by (simp add: filter_empty_conv fresh_id_unused)

lemma map_fresh_id: "map (\<lambda>j. if job_id j = fresh_id js then f j else j) js = js"
  by (simp add: map_idI fresh_id_unused)

lemma db_request_fails:
  "db_fails env (db_calls s) \<Longrightarrow>
   db_request env run s = (Inl (APIError ''request failed''), s\<lparr>db_calls := Suc (db_calls s)\<rparr>)"
  by (simp add: db_request_def)

lemma db_request_answers:
  "\<not> db_fails env (db_calls s) \<Longrightarrow> db_request env run s = run (s\<lparr>db_calls := Suc (db_calls s)\<rparr>)"
  by (simp add: db_request_def)

lemma keepsD: "keeps f m \<Longrightarrow> f (snd (m s)) = f s"
  by (simp add: keeps_def)

lemma keeps_return: "keeps f (return_io a)"
  by (simp add: keeps_def return_io_def)

lemma keeps_raise: "keeps f (raise_io e)"
  by (simp add: keeps_def raise_io_def)

lemma keeps_bind:
  assumes "keeps f m" and "\<And>a. keeps f (g a)"
  shows "keeps f (bind_io m g)"
proof -
  have "f (snd (bind_io m g s)) = f s" for s
  proof (cases "m s")
    case (Pair r s')
    then have m: "f s' = f s"
      using keepsD [OF assms(1), of s] by simp
    show ?thesis
    proof (cases r)
      case (Inl e)
      with Pair m show ?thesis by (simp add: bind_io_def)
    next
      case (Inr a)
      with Pair m keepsD [OF assms(2), of a s'] show ?thesis by (simp add: bind_io_def)
    qed
  qed
  then show ?thesis by (simp add: keeps_def)
qed

lemma keeps_try_except:
  assumes "keeps f m" and "\<And>e. keeps f (h e)"
  shows "keeps f (try_except m h)"
proof -
  have "f (snd (try_except m h s)) = f s" for s
  proof (cases "m s")
    case (Pair r s')
    then have m: "f s' = f s"
      using keepsD [OF assms(1), of s] by simp
    show ?thesis
    proof (cases r)
      case (Inl e)
      with Pair m keepsD [OF assms(2), of e s'] show ?thesis by (simp add: try_except_def)
    next
      case (Inr a)
      with Pair m show ?thesis by (simp add: try_except_def)
    qed
  qed
  then show ?thesis by (simp add: keeps_def)
qed

lemma keeps_log_error:
  assumes "\<And>s n. f (s\<lparr>logged_errors := n\<rparr>) = f s"
  shows "keeps f log_error"
  by (simp add: keeps_def log_error_def assms)

lemma keeps_now_iso:
  assumes "\<And>s n. f (s\<lparr>clock_reads := n\<rparr>) = f s"
  shows "keeps f (now_iso env)"
  by (simp add: keeps_def now_iso_def assms)

lemma keeps_db_read:
  assumes "\<And>s n. f (s\<lparr>db_calls := n\<rparr>) = f s"
  shows "keeps f (db_request env (\<lambda>s. (q s, s)))"
  by (simp add: keeps_def db_request_def Let_def assms)

lemma keeps_get_job:
  assumes "\<And>s n. f (s\<lparr>db_calls := n\<rparr>) = f s"
  shows "keeps f (get_job env jid)"
  unfolding get_job_def by (rule keeps_db_read) (rule assms)

lemma keeps_find_ext:
  assumes "\<And>s n. f (s\<lparr>db_calls := n\<rparr>) = f s"
  shows "keeps f (find_job_by_external_id env c x)"
  unfolding find_job_by_external_id_def by (rule keeps_db_read) (rule assms)

lemma keeps_find_hash:
  assumes "\<And>s n. f (s\<lparr>db_calls := n\<rparr>) = f s"
  shows "keeps f (find_job_by_description_hash env h)"
  unfolding find_job_by_description_hash_def by (rule keeps_db_read) (rule assms)

lemma keeps_generate:
  assumes "\<And>s n. f (s\<lparr>ai_calls := n\<rparr>) = f s"
  shows "keeps f (generate_enrichment env d sk t c)"
  by (simp add: keeps_def generate_enrichment_def assms)

lemma keeps_encode:
  assumes "\<And>s n. f (s\<lparr>emb_calls := n\<rparr>) = f s"
  shows "keeps f (encode env d)"
  by (simp add: keeps_def encode_def assms)

lemma keeps_update_job:
  assumes "\<And>s n. f (s\<lparr>db_calls := n\<rparr>) = f s"
    and "\<And>s. f (s\<lparr>jobs := map (\<lambda>j. if job_id j = jid then fold set_column data j else j)
                              (jobs s)\<rparr>) = f s"
  shows "keeps f (update_job env jid data)"
proof -
  have "f (snd (update_job env jid data s)) = f s" for s
  proof (cases "db_fails env (db_calls s)")
    case True
    then show ?thesis by (simp add: update_job_def db_request_fails assms(1))
  next
    case False
    from assms(2) [of "s\<lparr>db_calls := Suc (db_calls s)\<rparr>"]
    show ?thesis using False by (simp add: update_job_def db_request_answers assms(1))
  qed
  then show ?thesis by (simp add: keeps_def)
qed

lemma keeps_create_job:
  assumes "\<And>s n. f (s\<lparr>db_calls := n\<rparr>) = f s"
    and "\<And>s r. f (s\<lparr>jobs := jobs s @ [r]\<rparr>) = f s"
  shows "keeps f (create_job env d)"
proof -
  have "f (snd (create_job env d s)) = f s" for s
  proof (cases "db_fails env (db_calls s)")
    case True
    then show ?thesis by (simp add: create_job_def db_request_fails assms(1))
  next
    case False
    from assms(2) [of "s\<lparr>db_calls := Suc (db_calls s)\<rparr>" "new_row (fresh_id (jobs s)) d"]
    show ?thesis using False by (simp add: create_job_def db_request_answers Let_def assms(1))
  qed
  then show ?thesis by (simp add: keeps_def)
qed

text \<open>The two views that matter: columns of the jobs table, and the log table.\<close>

lemma keeps_cols_update_job:
  assumes "\<And>j. fr (fold set_column data j) = fr j"
  shows "keeps (\<lambda>s. map fr (jobs s)) (update_job env jid data)"
  by (rule keeps_update_job) (simp_all add: assms o_def)

lemma keeps_cols_enrich_job_try:
  assumes "\<And>j v. fr (j\<lparr>resume_guide_generated := v\<rparr>) = fr j"
    and "\<And>j v. fr (j\<lparr>prep_guide_generated := v\<rparr>) = fr j"
    and "\<And>j v. fr (j\<lparr>skills_required := v\<rparr>) = fr j"
    and "\<And>j v. fr (j\<lparr>embedding := v\<rparr>) = fr j"
    and "\<And>j v. fr (j\<lparr>salary_range := v\<rparr>) = fr j"
  shows "keeps (\<lambda>s. map fr (jobs s)) (enrich_job_try env jid)"
  unfolding enrich_job_try_def Let_def
  by (intro keeps_bind keeps_get_job)
     (auto simp: assms split: option.split
        intro!: keeps_bind keeps_generate keeps_encode keeps_cols_update_job keeps_log_error)

lemma keeps_cols_enrich_job:
  assumes "\<And>j v. fr (j\<lparr>resume_guide_generated := v\<rparr>) = fr j"
    and "\<And>j v. fr (j\<lparr>prep_guide_generated := v\<rparr>) = fr j"
    and "\<And>j v. fr (j\<lparr>skills_required := v\<rparr>) = fr j"
    and "\<And>j v. fr (j\<lparr>embedding := v\<rparr>) = fr j"
    and "\<And>j v. fr (j\<lparr>salary_range := v\<rparr>) = fr j"
  shows "keeps (\<lambda>s. map fr (jobs s)) (enrich_job env jid)"
  unfolding enrich_job_def
  by (intro keeps_try_except keeps_cols_enrich_job_try keeps_log_error assms) simp

lemma keeps_logs_enrich_job: "keeps scraping_logs (enrich_job env jid)"
  unfolding enrich_job_def enrich_job_try_def Let_def
  by (intro keeps_try_except keeps_bind keeps_get_job keeps_log_error)
     (auto split: option.split
        intro!: keeps_bind keeps_generate keeps_encode keeps_update_job keeps_log_error)

lemma enrich_job_returns: "fst (enrich_job env jid s) = Inr ()"
  by (cases "enrich_job_try env jid s")
     (auto simp: enrich_job_def try_except_def log_error_def split: sum.splits)

lemma get_job_absent:
  assumes "\<forall>j\<in>set (jobs s). job_id j \<noteq> jid"
  shows "get_job env jid s =
     (if db_fails env (db_calls s) then Inl (APIError ''request failed'') else Inr None,
      s\<lparr>db_calls := Suc (db_calls s)\<rparr>)"
proof -
  have "filter (\<lambda>j. job_id j = jid) (jobs s) = []"
    using assms by (simp add: filter_empty_conv)
  then show ?thesis
    by (simp add: get_job_def db_request_def Let_def)
qed

lemma enrich_job_absent:
  assumes "\<forall>j\<in>set (jobs s). job_id j \<noteq> jid"
  shows "enrich_job env jid s =
     (Inr (), s\<lparr>db_calls := Suc (db_calls s), logged_errors := Suc (logged_errors s)\<rparr>)"
  using get_job_absent [OF assms, of env]
  by (simp add: enrich_job_def enrich_job_try_def try_except_def bind_io_def log_error_def)

lemma enrich_job_try_raise_unlogged:
  "enrich_job_try env jid s = (Inl e, s') \<Longrightarrow> logged_errors s' = logged_errors s"
  by (auto simp: enrich_job_try_def bind_io_def get_job_def db_request_def Let_def
        generate_enrichment_def encode_def update_job_def log_error_def
      split: sum.splits option.splits if_splits prod.splits)

lemma update_job_result:
  assumes "update_job env jid data s = (Inr u, s')"
  shows "jobs s' = map (\<lambda>j. if job_id j = jid then fold set_column data j else j) (jobs s)"
proof (cases "db_fails env (db_calls s)")
  case True
  with assms show ?thesis by (simp add: update_job_def db_request_fails)
next
  case False
  with assms have "s' = s\<lparr>db_calls := Suc (db_calls s),
      jobs := map (\<lambda>j. if job_id j = jid then fold set_column data j else j) (jobs s)\<rparr>"
    by (simp add: update_job_def db_request_answers)
  then show ?thesis by simp
qed

lemma update_job_activates:
  assumes "update_job env jid [Status ''active''] s = (Inr u, s')"
  shows "\<forall>j\<in>set (jobs s'). job_id j = jid \<longrightarrow> status j = ''active''"
proof (intro ballI impI)
  fix j assume j: "j \<in> set (jobs s')" and i: "job_id j = jid"
  let ?f = "\<lambda>j. if job_id j = jid then fold set_column [Status ''active''] j else j"
  from j update_job_result [OF assms] have "j \<in> ?f ` set (jobs s)"
    by (simp only: set_map)
  then obtain j0 where "j = ?f j0" by (rule imageE)
  with i show "status j = ''active''"
    by (cases "job_id j0 = jid") simp_all
qed

lemma enrich_and_activate_activates:
  assumes "enrich_and_activate env created st s = (Inr st', s')"
  shows "\<forall>j\<in>set (jobs s'). job_id j = job_id created \<longrightarrow> status j = ''active''"
proof -
  obtain r s1 where e: "enrich_job env (job_id created) s = (r, s1)"
    by (cases "enrich_job env (job_id created) s")
  with enrich_job_returns [of env "job_id created" s] have r: "r = Inr ()" by simp
  obtain r2 s2 where u: "update_job env (job_id created) [Status ''active''] s1 = (r2, s2)"
    by (cases "update_job env (job_id created) [Status ''active''] s1")
  from assms e r u have "r2 = Inr () \<and> s2 = s'"
    by (cases r2) (simp_all add: enrich_and_activate_def bind_io_def return_io_def)
  with u have "update_job env (job_id created) [Status ''active''] s1 = (Inr (), s')" by simp
  then show ?thesis by (rule update_job_activates)
qed

lemma reenrich_one_repairs:
  assumes "reenrich_one env job c s = (Inr c', s')" and "fst c' = Suc (fst c)"
    and "status job = ''processing''"
  shows "\<forall>j\<in>set (jobs s'). job_id j = job_id job \<longrightarrow> status j = ''active''"
proof -
  obtain r s1 where e: "enrich_job env (job_id job) s = (r, s1)"
    by (cases "enrich_job env (job_id job) s")
  with enrich_job_returns [of env "job_id job" s] have r: "r = Inr ()" by simp
  obtain r2 s2 where u: "update_job env (job_id job) [Status ''active''] s1 = (r2, s2)"
    by (cases "update_job env (job_id job) [Status ''active''] s1")
  from assms e r u have "r2 = Inr () \<and> s2 = s'"
    by (cases r2)
       (auto simp add: reenrich_one_def try_except_def bind_io_def return_io_def log_error_def)
  with u have "update_job env (job_id job) [Status ''active''] s1 = (Inr (), s')" by simp
  then show ?thesis by (rule update_job_activates)
qed

lemma single_row_status:
  assumes "map job_id js = [i]" and "\<forall>j\<in>set js. job_id j = i \<longrightarrow> status j = v"
  shows "map status js = [v]"
proof -
  from assms(1) obtain j where "js = [j]" by (cases js) auto
  with assms show ?thesis by simp
qed


lemma returnsD: "returns Q m \<Longrightarrow> m s = (Inr a, s') \<Longrightarrow> Q a"
  by (auto simp: returns_def)

lemma returns_return: "Q a \<Longrightarrow> returns Q (return_io a)"
  by (simp add: returns_def return_io_def)

lemma returns_raise: "returns Q (raise_io e)"
  by (simp add: returns_def raise_io_def)

lemma returns_bind:
  assumes "\<And>a. returns Q (g a)"
  shows "returns Q (bind_io m g)"
proof -
  have "Q b" if "bind_io m g s = (Inr b, s')" for s b s'
  proof (cases "m s")
    case (Pair r s1)
    show ?thesis
    proof (cases r)
      case (Inl e)
      with Pair that show ?thesis by (simp add: bind_io_def)
    next
      case (Inr a)
      with Pair that have "g a s1 = (Inr b, s')" by (simp add: bind_io_def)
      with assms show ?thesis by (rule returnsD)
    qed
  qed
  then show ?thesis unfolding returns_def by blast
qed

lemma returns_try_except:
  assumes "returns Q m" and "\<And>e. returns Q (h e)"
  shows "returns Q (try_except m h)"
proof -
  have "Q b" if "try_except m h s = (Inr b, s')" for s b s'
  proof (cases "m s")
    case (Pair r s1)
    show ?thesis
    proof (cases r)
      case (Inl e)
      with Pair that have "h e s1 = (Inr b, s')" by (simp add: try_except_def)
      with assms(2) show ?thesis by (rule returnsD)
    next
      case (Inr a)
      with Pair that have "m s = (Inr b, s')" by (simp add: try_except_def)
      with assms(1) show ?thesis by (rule returnsD)
    qed
  qed
  then show ?thesis unfolding returns_def by blast
qed

lemma returns_enrich_and_activate:
  "returns (\<lambda>st'. st' = st\<lparr>new := new st + 1\<rparr>) (enrich_and_activate env created st)"
  unfolding enrich_and_activate_def
  by (intro returns_bind returns_return) simp

lemma returns_clone_enrichment:
  "returns (\<lambda>st'. st' = st\<lparr>new := new st + 1, dedup_hits := dedup_hits st + 1\<rparr>)
     (clone_enrichment env created donor st)"
  unfolding clone_enrichment_def
  by (intro returns_bind returns_return) simp

lemma returns_weaken: "returns P m \<Longrightarrow> (\<And>a. P a \<Longrightarrow> Q a) \<Longrightarrow> returns Q m"
  by (auto simp: returns_def)

lemma returns_ingest_posting_try:
  "returns (counted_once st) (ingest_posting_try env job_data company ext_id st)"
  unfolding ingest_posting_try_def Let_def
  apply (intro returns_bind)
  apply (auto split: option.split 
      intro!: returns_bind returns_raise returns_return
        returns_weaken [OF returns_enrich_and_activate] returns_weaken [OF returns_clone_enrichment]
      simp: counted_once_def)
  done

lemma returns_ingest_posting: "returns (counted_once st) (ingest_posting env job_data st)"
  unfolding ingest_posting_def
  by (auto split: option.split simp: counted_once_def
      intro!: returns_raise returns_try_except returns_ingest_posting_try returns_bind returns_return)

lemma ingest_loop_counts:
  "ingest_loop env ps st s = (Inr st', s') \<Longrightarrow>
   new st' + skipped st' + errors st' = new st + skipped st + errors st + length ps \<and>
   fetched st' = fetched st"
proof (induction ps arbitrary: st s)
  case Nil
  then show ?case by simp
next
  case (Cons p ps)
  obtain r s1 where step: "ingest_posting env p st s = (r, s1)"
    by (cases "ingest_posting env p st s")
  show ?case
  proof (cases r)
    case (Inl e)
    with Cons.prems step show ?thesis by simp
  next
    case (Inr st1)
    with step have "counted_once st st1"
      using returnsD [OF returns_ingest_posting] by blast
    moreover from Cons.prems step Inr have "ingest_loop env ps st1 s1 = (Inr st', s')" by simp
    from Cons.IH [OF this] have
      "new st' + skipped st' + errors st' = new st1 + skipped st1 + errors st1 + length ps \<and>
       fetched st' = fetched st1" .
    ultimately show ?thesis by (auto simp: counted_once_def)
  qed
qed


lemma keeps_logs_ingest_posting: "keeps scraping_logs (ingest_posting env job_data st)"
  unfolding ingest_posting_def ingest_posting_try_def enrich_and_activate_def
    clone_enrichment_def Let_def
  by (auto split: option.split
      intro!: keeps_raise keeps_try_except keeps_bind keeps_return keeps_log_error
        keeps_find_ext keeps_find_hash keeps_create_job keeps_update_job keeps_logs_enrich_job)

lemma ingest_loop_logs: "scraping_logs (snd (ingest_loop env ps st s)) = scraping_logs s"
proof (induction ps arbitrary: st s)
  case Nil
  show ?case by simp
next
  case (Cons p ps)
  obtain r s1 where step: "ingest_posting env p st s = (r, s1)"
    by (cases "ingest_posting env p st s")
  with keepsD [OF keeps_logs_ingest_posting, of env p st s]
  have l: "scraping_logs s1 = scraping_logs s" by simp
  show ?case
  proof (cases r)
    case (Inl e)
    with step l show ?thesis by simp
  next
    case (Inr st1)
    with step l Cons.IH [of st1 s1] show ?thesis by simp
  qed
qed

lemma log_id_le_max_log_id: "l \<in> set ls \<Longrightarrow> log_id l \<le> max_log_id ls"
  by (induction ls) auto

lemma map_fresh_log_id:
  "map (\<lambda>l. if log_id l = Suc (max_log_id ls) then f l else l) ls = ls"
proof (rule map_idI)
  fix l assume "l \<in> set ls"
  then have "log_id l \<noteq> Suc (max_log_id ls)"
    using log_id_le_max_log_id [of l ls] by simp
  then show "(if log_id l = Suc (max_log_id ls) then f l else l) = l" by simp
qed

lemma insert_scraping_log_result:
  assumes "insert_scraping_log env src st started s = (Inr row, s')"
  shows "\<not> db_fails env (db_calls s) \<and>
         row = new_log_row (Suc (max_log_id (scraping_logs s))) src st started \<and>
         s' = s\<lparr>db_calls := Suc (db_calls s), scraping_logs := scraping_logs s @ [row]\<rparr>"
proof (cases "db_fails env (db_calls s)")
  case True
  with assms show ?thesis by (simp add: insert_scraping_log_def db_request_fails)
next
  case False
  with assms show ?thesis
    by (auto simp add: insert_scraping_log_def db_request_answers Let_def)
qed

lemma update_scraping_log_result:
  assumes "update_scraping_log env lid data s = (Inr u, s')"
  shows "\<not> db_fails env (db_calls s) \<and>
         s' = s\<lparr>db_calls := Suc (db_calls s), scraping_logs :=
          map (\<lambda>l. if log_id l = lid
                    then (fold set_log_column data l)\<lparr>log_updates := Suc (log_updates l)\<rparr>
                    else l) (scraping_logs s)\<rparr>"
proof (cases "db_fails env (db_calls s)")
  case True
  with assms show ?thesis by (simp add: update_scraping_log_def db_request_fails)
next
  case False
  with assms show ?thesis
    by (auto simp add: update_scraping_log_def db_request_answers)
qed

lemma ingest_jobs_fetched:
  assumes "scraper_answer env = Inr P" and "ingest_jobs env s = (Inr st, s')"
  shows "\<exists>log_entry s1 s2.
     insert_scraping_log env (str_lower env (COMPANY_NAME env)) ''running'' (clock env (clock_reads s))
        (s\<lparr>clock_reads := Suc (clock_reads s)\<rparr>) = (Inr log_entry, s1) \<and>
     ingest_loop env P (initial_stats\<lparr>fetched := length P\<rparr>) s1 = (Inr st, s2) \<and>
     update_scraping_log env (log_id log_entry)
        [Log_status (final_status st), Jobs_found (fetched st), Jobs_new (new st),
         Jobs_skipped (skipped st), Error_count (errors st),
         Finished_at (clock env (clock_reads s2))]
        (s2\<lparr>clock_reads := Suc (clock_reads s2)\<rparr>) = (Inr (), s')"
proof -
  let ?s0 = "s\<lparr>clock_reads := Suc (clock_reads s)\<rparr>"
  obtain r1 s1 where i: "insert_scraping_log env (str_lower env (COMPANY_NAME env)) ''running''
      (clock env (clock_reads s)) ?s0 = (r1, s1)"
    by (cases "insert_scraping_log env (str_lower env (COMPANY_NAME env)) ''running''
      (clock env (clock_reads s)) ?s0")
  from assms i obtain log_entry where r1: "r1 = Inr log_entry"
    by (cases r1) (simp_all add: ingest_jobs_def bind_io_def now_iso_def Let_def)
  obtain r2 s2 where l: "ingest_loop env P (initial_stats\<lparr>fetched := length P\<rparr>) s1 = (r2, s2)"
    by (cases "ingest_loop env P (initial_stats\<lparr>fetched := length P\<rparr>) s1")
  from assms i r1 l obtain st2 where r2: "r2 = Inr st2"
    by (cases r2) (simp_all add: ingest_jobs_def bind_io_def now_iso_def Let_def)
  let ?u = "update_scraping_log env (log_id log_entry)
        [Log_status (final_status st2), Jobs_found (fetched st2), Jobs_new (new st2),
         Jobs_skipped (skipped st2), Error_count (errors st2),
         Finished_at (clock env (clock_reads s2))]
        (s2\<lparr>clock_reads := Suc (clock_reads s2)\<rparr>)"
  obtain r3 s3 where u: "?u = (r3, s3)" by (cases ?u)
  from assms i r1 l r2 u have "r3 = Inr () \<and> st2 = st \<and> s3 = s'"
    by (cases r3) (simp_all add: ingest_jobs_def bind_io_def now_iso_def Let_def return_io_def)
  with i r1 l r2 u show ?thesis by simp
qed


lemma final_status_cases:
  "final_status st =
     (if errors st > 0 \<and> new st = 0 then ''failed''
      else if errors st > 0 \<and> new st > 0 then ''partial'' else ''success'')"
  by (simp add: final_status_def)

lemma ingest_jobs_log:
  assumes "scraper_answer env = Inr P" and "ingest_jobs env s = (Inr st, s')"
  shows "\<exists>fin. scraping_logs s' = scraping_logs s @
     [\<lparr>log_id = Suc (max_log_id (scraping_logs s)), source_name = str_lower env (COMPANY_NAME env),
       log_status = final_status st, started_at = clock env (clock_reads s),
       finished_at = Some fin, jobs_found = Some (fetched st), jobs_new = Some (new st),
       jobs_skipped = Some (skipped st), error_count = Some (errors st),
       error_message = None, traceback = None, log_updates = 1\<rparr>]"
proof -
  from ingest_jobs_fetched [OF assms] obtain log_entry s1 s2 where
    i: "insert_scraping_log env (str_lower env (COMPANY_NAME env)) ''running'' (clock env (clock_reads s))
        (s\<lparr>clock_reads := Suc (clock_reads s)\<rparr>) = (Inr log_entry, s1)" and
    l: "ingest_loop env P (initial_stats\<lparr>fetched := length P\<rparr>) s1 = (Inr st, s2)" and
    u: "update_scraping_log env (log_id log_entry)
        [Log_status (final_status st), Jobs_found (fetched st), Jobs_new (new st),
         Jobs_skipped (skipped st), Error_count (errors st),
         Finished_at (clock env (clock_reads s2))]
        (s2\<lparr>clock_reads := Suc (clock_reads s2)\<rparr>) = (Inr (), s')" by blast
  let ?lid = "Suc (max_log_id (scraping_logs s))"
  from insert_scraping_log_result [OF i] have
    row: "log_entry = new_log_row ?lid (str_lower env (COMPANY_NAME env)) ''running''
            (clock env (clock_reads s))" and
    s1: "scraping_logs s1 = scraping_logs s @ [log_entry]" by simp_all
  from row have lid: "log_id log_entry = ?lid" by (simp add: new_log_row_def)
  from ingest_loop_logs [of env P "initial_stats\<lparr>fetched := length P\<rparr>" s1] l
  have s2: "scraping_logs s2 = scraping_logs s1" by simp
  from update_scraping_log_result [OF u] have
    "scraping_logs s' = map (\<lambda>l. if log_id l = log_id log_entry
          then (fold set_log_column [Log_status (final_status st), Jobs_found (fetched st),
                  Jobs_new (new st), Jobs_skipped (skipped st), Error_count (errors st),
                  Finished_at (clock env (clock_reads s2))] l)\<lparr>log_updates := Suc (log_updates l)\<rparr>
          else l) (scraping_logs s2)" by simp
  with s1 s2 lid row show ?thesis
    by (simp add: map_fresh_log_id new_log_row_def)
qed


lemma ingest_jobs_fetch_failed:
  assumes "scraper_answer env = Inl exc"
  shows "ingest_jobs env s =
    (if db_fails env (db_calls s)
     then (Inl (APIError ''request failed''),
           s\<lparr>clock_reads := Suc (clock_reads s), db_calls := Suc (db_calls s)\<rparr>)
     else if db_fails env (Suc (db_calls s))
     then (Inl (APIError ''request failed''),
           s\<lparr>clock_reads := Suc (Suc (clock_reads s)), db_calls := Suc (Suc (db_calls s)),
             logged_errors := Suc (logged_errors s),
             scraping_logs := scraping_logs s @
               [new_log_row (Suc (max_log_id (scraping_logs s))) (str_lower env (COMPANY_NAME env))
                  ''running'' (clock env (clock_reads s))]\<rparr>)
     else (Inr (initial_stats\<lparr>error := Some (str exc)\<rparr>),
           s\<lparr>clock_reads := Suc (Suc (clock_reads s)), db_calls := Suc (Suc (db_calls s)),
             logged_errors := Suc (logged_errors s),
             scraping_logs := scraping_logs s @
               [(new_log_row (Suc (max_log_id (scraping_logs s))) (str_lower env (COMPANY_NAME env))
                  ''running'' (clock env (clock_reads s)))
                \<lparr>log_status := ''failed'', error_message := Some (str exc),
                 traceback := Some (traceback_text env exc),
                 finished_at := Some (clock env (Suc (clock_reads s))),
                 log_updates := 1\<rparr>]\<rparr>))"
  using assms
  by (simp add: ingest_jobs_def bind_io_def now_iso_def insert_scraping_log_def
      update_scraping_log_def db_request_def log_error_def return_io_def Let_def
      map_fresh_log_id new_log_row_def)


lemma acquire_cron_lock_held:
  assumes "locks name = Some u" and "t \<le> u"
  shows "acquire_cron_lock True t name locks = (False, locks)"
  using assms by (simp add: acquire_cron_lock_def rpc_execute_def acquire_cron_lock_rpc_def)

lemma acquire_cron_lock_free:
  assumes "locks name = None \<or> (\<exists>u. locks name = Some u \<and> u < t)"
  shows "acquire_cron_lock True t name locks = (True, locks(name \<mapsto> t + LOCK_TTL_MINUTES))"
  using assms by (auto simp add: acquire_cron_lock_def rpc_execute_def acquire_cron_lock_rpc_def)

lemma acquire_cron_lock_fail_open: "acquire_cron_lock False t name locks = (True, locks)"
  by (simp add: acquire_cron_lock_def rpc_execute_def)

lemma acquire_all_held:
  assumes "locks name = Some u" and "\<forall>t\<in>set ts. t \<le> u"
  shows "acquire_all (map (Pair True) ts) name locks = (replicate (length ts) False, locks)"
  using assms by (induction ts) (simp_all add: acquire_cron_lock_held)


lemma bind_io_Inr:
  assumes "bind_io m g s = (Inr b, s')"
  obtains a s1 where "m s = (Inr a, s1)" and "g a s1 = (Inr b, s')"
proof (cases "m s")
  case (Pair r s1)
  show ?thesis
  proof (cases r)
    case (Inl e)
    with Pair assms show ?thesis by (simp add: bind_io_def)
  next
    case (Inr a)
    with Pair assms that show ?thesis by (simp add: bind_io_def)
  qed
qed

lemma try_except_Inr:
  assumes "try_except m h s = (Inr b, s')"
  obtains "m s = (Inr b, s')" | e s1 where "m s = (Inl e, s1)" and "h e s1 = (Inr b, s')"
proof (cases "m s")
  case (Pair r s1)
  show ?thesis
  proof (cases r)
    case (Inl e)
    with Pair assms that(2) show ?thesis by (simp add: try_except_def)
  next
    case (Inr a)
    with Pair assms that(1) show ?thesis by (simp add: try_except_def)
  qed
qed

lemma db_read_result:
  assumes "db_request env (\<lambda>s. (q s, s)) s = (Inr r, s')"
  shows "s' = s\<lparr>db_calls := Suc (db_calls s)\<rparr> \<and> q s' = Inr r"
proof (cases "db_fails env (db_calls s)")
  case True
  with assms show ?thesis by (simp add: db_request_fails)
next
  case False
  with assms show ?thesis by (auto simp add: db_request_answers)
qed

lemma find_ext_result:
  assumes "find_job_by_external_id env c x s = (Inr r, s')"
  shows "s' = s\<lparr>db_calls := Suc (db_calls s)\<rparr> \<and>
         maybe_single (filter (\<lambda>j. company_name j = Some c \<and> external_id j = Some x) (jobs s)) = Inr r"
proof -
  from db_read_result [OF assms [unfolded find_job_by_external_id_def]]
  have a: "s' = s\<lparr>db_calls := Suc (db_calls s)\<rparr>" and
    b: "maybe_single (filter (\<lambda>j. company_name j = Some c \<and> external_id j = Some x) (jobs s')) = Inr r"
    by blast+
  from b show ?thesis unfolding a by simp
qed

lemma find_hash_result:
  assumes "find_job_by_description_hash env h s = (Inr r, s')"
  shows "s' = s\<lparr>db_calls := Suc (db_calls s)\<rparr> \<and>
         maybe_single (take 1 (filter (\<lambda>j. description_hash j = Some h \<and> embedding j \<noteq> None) (jobs s))) = Inr r"
proof -
  from db_read_result [OF assms [unfolded find_job_by_description_hash_def]]
  have a: "s' = s\<lparr>db_calls := Suc (db_calls s)\<rparr>" and
    b: "maybe_single (take 1 (filter (\<lambda>j. description_hash j = Some h \<and> embedding j \<noteq> None) (jobs s'))) = Inr r"
    by blast+
  from b show ?thesis unfolding a by simp
qed

lemma create_job_result:
  assumes "create_job env d s = (Inr row, s')"
  shows "row = new_row (fresh_id (jobs s)) d \<and>
         s' = s\<lparr>db_calls := Suc (db_calls s), jobs := jobs s @ [row]\<rparr>"
proof (cases "db_fails env (db_calls s)")
  case True
  with assms show ?thesis by (simp add: create_job_def db_request_fails)
next
  case False
  with assms show ?thesis by (auto simp add: create_job_def db_request_answers Let_def)
qed

lemma update_job_state:
  assumes "update_job env jid data s = (Inr u, s')"
  shows "s' = s\<lparr>db_calls := Suc (db_calls s),
      jobs := map (\<lambda>j. if job_id j = jid then fold set_column data j else j) (jobs s)\<rparr>"
proof (cases "db_fails env (db_calls s)")
  case True
  with assms show ?thesis by (simp add: update_job_def db_request_fails)
next
  case False
  with assms show ?thesis by (simp add: update_job_def db_request_answers)
qed

lemma maybe_single_take1:
  "maybe_single (take (Suc 0) xs) = Inr (case xs of [] \<Rightarrow> None | x # _ \<Rightarrow> Some x)"
  by (cases xs) simp_all

lemma maybe_single_None: "maybe_single xs = Inr None \<longleftrightarrow> xs = []"
  by (cases xs rule: maybe_single.cases) simp_all

lemma maybe_single_Some: "maybe_single xs = Inr (Some r) \<longleftrightarrow> xs = [r]"
  by (cases xs rule: maybe_single.cases) auto

text \<open>The clone path, backwards: a returned dedup hit determines what happened.\<close>

lemma ingest_posting_dedup_hit:
  assumes run: "ingest_posting env job_data st s = (Inr st', s')"
    and hit: "dedup_hits st' = Suc (dedup_hits st)"
  shows "\<exists>company ext_id ttl desc_raw h donor rest.
     rp_company_name job_data = Some company \<and> rp_external_id job_data = Some ext_id \<and>
     rp_title job_data = Some ttl \<and> rp_description_raw job_data = Some desc_raw \<and>
     desc_raw \<noteq> [] \<and> h = sha256_hexdigest env desc_raw \<and> h \<noteq> [] \<and>
     filter (\<lambda>j. company_name j = Some company \<and> external_id j = Some ext_id) (jobs s) = [] \<and>
     filter (\<lambda>j. description_hash j = Some h \<and> embedding j \<noteq> None) (jobs s) = donor # rest \<and>
     st' = st\<lparr>new := new st + 1, dedup_hits := dedup_hits st + 1\<rparr> \<and>
     s' = s\<lparr>db_calls := db_calls s + 4,
            jobs := jobs s @
              [(new_row (fresh_id (jobs s))
                  (new_job_data job_data company ext_id ttl desc_raw (Some h)))
               \<lparr>resume_guide_generated := resume_guide_generated donor,
                prep_guide_generated := prep_guide_generated donor,
                embedding := embedding donor, status := ''active''\<rparr>]\<rparr>"
proof -
  from run obtain company where c: "rp_company_name job_data = Some company"
    by (cases "rp_company_name job_data") (simp_all add: ingest_posting_def raise_io_def)
  from run c obtain ext_id where x: "rp_external_id job_data = Some ext_id"
    by (cases "rp_external_id job_data") (simp_all add: ingest_posting_def raise_io_def)
  from run c x have "try_except (ingest_posting_try env job_data company ext_id st)
      (\<lambda>e. bind_io log_error (\<lambda>_. return_io (st\<lparr>errors := errors st + 1\<rparr>))) s = (Inr st', s')"
    by (simp add: ingest_posting_def)
  then have body: "ingest_posting_try env job_data company ext_id st s = (Inr st', s')"
  proof (cases rule: try_except_Inr)
    case 1
    then show ?thesis .
  next
    case (2 e s1)
    then have "st' = st\<lparr>errors := errors st + 1\<rparr>"
      by (simp add: bind_io_def log_error_def return_io_def)
    with hit show ?thesis by simp
  qed
  let ?desc = "case rp_description_raw job_data of None \<Rightarrow> [] | Some d \<Rightarrow> d"
  let ?hash = "if ?desc \<noteq> [] then Some (sha256_hexdigest env ?desc) else None"
  from body obtain existing s1 where
    f: "find_job_by_external_id env company ext_id s = (Inr existing, s1)" and
    k1: "(case existing of
         Some _ \<Rightarrow> return_io (st\<lparr>skipped := skipped st + 1\<rparr>)
       | None \<Rightarrow>
           (case rp_title job_data of
                 None \<Rightarrow> raise_io (KeyError ''title'')
               | Some ttl \<Rightarrow>
                   bind_io (create_job env (new_job_data job_data company ext_id ttl ?desc ?hash))
                     (\<lambda>created.
                       (case ?hash of
                          None \<Rightarrow> enrich_and_activate env created st
                        | Some h \<Rightarrow>
                            (if h = [] then enrich_and_activate env created st
                             else bind_io (find_job_by_description_hash env h) (\<lambda>donor.
                                    (case donor of
                                       Some d \<Rightarrow> clone_enrichment env created d st
                                     | None \<Rightarrow> enrich_and_activate env created st))))))) s1
         = (Inr st', s')"
    unfolding ingest_posting_try_def Let_def by (rule bind_io_Inr)
  from find_ext_result [OF f] have s1: "s1 = s\<lparr>db_calls := Suc (db_calls s)\<rparr>" and
    ms: "maybe_single (filter (\<lambda>j. company_name j = Some company \<and> external_id j = Some ext_id) (jobs s)) = Inr existing"
    by simp_all
  have ex: "existing = None"
  proof (cases existing)
    case None then show ?thesis .
  next
    case (Some r)
    with k1 have "st' = st\<lparr>skipped := skipped st + 1\<rparr>" by (simp add: return_io_def)
    with hit show ?thesis by simp
  qed
  with ms have nokey:
    "filter (\<lambda>j. company_name j = Some company \<and> external_id j = Some ext_id) (jobs s) = []"
    by (simp add: maybe_single_None)
  from k1 ex obtain ttl where t: "rp_title job_data = Some ttl"
    by (cases "rp_title job_data") (simp_all add: raise_io_def)
  from k1 ex t obtain created s2 where
    cr: "create_job env (new_job_data job_data company ext_id ttl ?desc ?hash) s1 = (Inr created, s2)" and
    k2: "(case ?hash of
            None \<Rightarrow> enrich_and_activate env created st
          | Some h \<Rightarrow>
              (if h = [] then enrich_and_activate env created st
               else bind_io (find_job_by_description_hash env h) (\<lambda>donor.
                      (case donor of
                         Some d \<Rightarrow> clone_enrichment env created d st
                       | None \<Rightarrow> enrich_and_activate env created st)))) s2 = (Inr st', s')"
    by (auto elim: bind_io_Inr)
  have nea: False if "enrich_and_activate env created st s2 = (Inr st', s')"
    using returnsD [OF returns_enrich_and_activate that] hit by simp
  from k2 nea obtain desc_raw where d: "rp_description_raw job_data = Some desc_raw" "desc_raw \<noteq> []"
    by (cases "rp_description_raw job_data") (auto split: if_splits)
  define h where "h = sha256_hexdigest env desc_raw"
  from k2 nea d have hne: "h \<noteq> []" by (auto simp: h_def)
  from k2 d hne obtain donor s3 where
    fh: "find_job_by_description_hash env h s2 = (Inr donor, s3)" and
    k3: "(case donor of Some d \<Rightarrow> clone_enrichment env created d st
          | None \<Rightarrow> enrich_and_activate env created st) s3 = (Inr st', s')"
    by (auto simp: h_def elim: bind_io_Inr)
  have nea3: False if "enrich_and_activate env created st s3 = (Inr st', s')"
    using returnsD [OF returns_enrich_and_activate that] hit by simp
  from k3 nea3 obtain dn where dn: "donor = Some dn" by (cases donor) auto
  from k3 dn have cl: "clone_enrichment env created dn st s3 = (Inr st', s')" by simp
  from returnsD [OF returns_clone_enrichment cl]
  have st': "st' = st\<lparr>new := new st + 1, dedup_hits := dedup_hits st + 1\<rparr>" .
  from cl obtain u where
    up: "update_job env (job_id created)
                [Resume_guide_generated (resume_guide_generated dn),
                 Prep_guide_generated (prep_guide_generated dn),
                 Embedding (embedding dn),
                 Status ''active''] s3 = (Inr u, s')"
    unfolding clone_enrichment_def by (auto elim: bind_io_Inr simp: return_io_def)
  from create_job_result [OF cr] d have
    created: "created = new_row (fresh_id (jobs s)) (new_job_data job_data company ext_id ttl desc_raw (Some h))"
    and s2: "s2 = s\<lparr>db_calls := Suc (Suc (db_calls s)), jobs := jobs s @ [created]\<rparr>"
    by (simp_all add: s1 h_def)
  from find_hash_result [OF fh] dn have s3: "s3 = s2\<lparr>db_calls := Suc (db_calls s2)\<rparr>" and
    tk: "maybe_single (take 1 (filter (\<lambda>j. description_hash j = Some h \<and> embedding j \<noteq> None) (jobs s2))) = Inr (Some dn)"
    by simp_all
  have cemb: "embedding created = None" by (simp add: created new_row_def)
  have cid: "job_id created = fresh_id (jobs s)" by (simp add: created new_row_def)
  from tk cemb obtain rest where donor:
    "filter (\<lambda>j. description_hash j = Some h \<and> embedding j \<noteq> None) (jobs s) = dn # rest"
    by (simp add: s2 maybe_single_take1 split: list.splits)
  from update_job_state [OF up] have
    "s' = s\<lparr>db_calls := db_calls s + 4,
            jobs := jobs s @
              [created\<lparr>resume_guide_generated := resume_guide_generated dn,
                prep_guide_generated := prep_guide_generated dn,
                embedding := embedding dn, status := ''active''\<rparr>]\<rparr>"
    by (simp add: s3 s2 cid map_fresh_id)
  with c x t d hne nokey donor st' created show ?thesis
    unfolding h_def by blast
qed


lemma store_answersD: "store_answers env n k \<Longrightarrow> i < k \<Longrightarrow> \<not> db_fails env (n + i)"
  by (simp add: store_answers_def)

lemma ingest_posting_clone:
  assumes c: "rp_company_name job_data = Some company"
    and x: "rp_external_id job_data = Some ext_id"
    and t: "rp_title job_data = Some ttl"
    and d: "rp_description_raw job_data = Some desc_raw" "desc_raw \<noteq> []"
    and h: "sha256_hexdigest env desc_raw \<noteq> []"
    and nokey: "identity_absent company ext_id (jobs s)"
    and donor: "enriched_with_hash (sha256_hexdigest env desc_raw) (jobs s) = dn # rest"
    and db: "store_answers env (db_calls s) 4"
  shows "ingest_posting env job_data st s =
    (Inr (st\<lparr>new := new st + 1, dedup_hits := dedup_hits st + 1\<rparr>),
     s\<lparr>db_calls := db_calls s + 4,
       jobs := jobs s @
         [(new_row (fresh_id (jobs s))
             (new_job_data job_data company ext_id ttl desc_raw
                (Some (sha256_hexdigest env desc_raw))))
          \<lparr>resume_guide_generated := resume_guide_generated dn,
           prep_guide_generated := prep_guide_generated dn,
           embedding := embedding dn, status := ''active''\<rparr>]\<rparr>)"
proof -
  have db0: "\<not> db_fails env (db_calls s)" using store_answersD [OF db, of 0] by simp
  have db1: "\<not> db_fails env (Suc (db_calls s))" using store_answersD [OF db, of 1] by simp
  have db2: "\<not> db_fails env (Suc (Suc (db_calls s)))" using store_answersD [OF db, of 2] by simp
  have db3: "\<not> db_fails env (Suc (Suc (Suc (db_calls s))))"
    using store_answersD [OF db, of 3] by (simp add: numeral_3_eq_3)
  let ?h = "sha256_hexdigest env desc_raw"
  let ?s1 = "s\<lparr>db_calls := Suc (db_calls s)\<rparr>"
  let ?row = "new_row (fresh_id (jobs s))
             (new_job_data job_data company ext_id ttl desc_raw (Some ?h))"
  let ?s2 = "s\<lparr>db_calls := Suc (Suc (db_calls s)), jobs := jobs s @ [?row]\<rparr>"
  let ?s3 = "s\<lparr>db_calls := Suc (Suc (Suc (db_calls s))), jobs := jobs s @ [?row]\<rparr>"
  have f: "find_job_by_external_id env company ext_id s = (Inr None, ?s1)"
    using nokey db0 by (simp add: find_job_by_external_id_def db_request_answers identity_absent_def)
  have cr: "create_job env (new_job_data job_data company ext_id ttl desc_raw (Some ?h)) ?s1
      = (Inr ?row, ?s2)"
    using db1 by (simp add: create_job_def db_request_answers Let_def)
  have remb: "embedding ?row = None" by (simp add: new_row_def)
  have rid: "job_id ?row = fresh_id (jobs s)" by (simp add: new_row_def)
  have fh: "find_job_by_description_hash env ?h ?s2 = (Inr (Some dn), ?s3)"
    using db2 donor remb
    by (simp add: find_job_by_description_hash_def db_request_answers enriched_with_hash_def)
  have up: "update_job env (job_id ?row)
                [Resume_guide_generated (resume_guide_generated dn),
                 Prep_guide_generated (prep_guide_generated dn),
                 Embedding (embedding dn),
                 Status ''active''] ?s3 =
     (Inr (), s\<lparr>db_calls := db_calls s + 4,
       jobs := jobs s @
         [?row\<lparr>resume_guide_generated := resume_guide_generated dn,
           prep_guide_generated := prep_guide_generated dn,
           embedding := embedding dn, status := ''active''\<rparr>]\<rparr>)"
    using db3 by (simp add: update_job_def db_request_answers rid map_fresh_id)
  have cl: "clone_enrichment env ?row dn st ?s3 =
     (Inr (st\<lparr>new := new st + 1, dedup_hits := dedup_hits st + 1\<rparr>),
      s\<lparr>db_calls := db_calls s + 4,
       jobs := jobs s @
         [?row\<lparr>resume_guide_generated := resume_guide_generated dn,
           prep_guide_generated := prep_guide_generated dn,
           embedding := embedding dn, status := ''active''\<rparr>]\<rparr>)"
    unfolding clone_enrichment_def by (simp add: bind_io_def up return_io_def)
  have body: "ingest_posting_try env job_data company ext_id st s =
     (Inr (st\<lparr>new := new st + 1, dedup_hits := dedup_hits st + 1\<rparr>),
      s\<lparr>db_calls := db_calls s + 4,
       jobs := jobs s @
         [?row\<lparr>resume_guide_generated := resume_guide_generated dn,
           prep_guide_generated := prep_guide_generated dn,
           embedding := embedding dn, status := ''active''\<rparr>]\<rparr>)"
    unfolding ingest_posting_try_def Let_def
    using t d h by (simp add: bind_io_def f cr fh cl)
  show ?thesis
    unfolding ingest_posting_def using c x by (simp add: try_except_def body)
qed


lemma enrich_job_success:
  assumes row: "filter (\<lambda>r. job_id r = jid) (jobs s) = [j]"
    and db: "store_answers env (db_calls s) 2"
    and ai: "ai_answer env (ai_calls s) (description_raw j)
               (case skills_required j of None \<Rightarrow> [] | Some l \<Rightarrow> l) (title j) (company_name j) = Inr e"
    and emb: "emb_answer env (emb_calls s) (description_raw j) = Inr v"
  shows "enrich_job env jid s =
    (Inr (), s\<lparr>db_calls := db_calls s + 2, ai_calls := Suc (ai_calls s),
               emb_calls := Suc (emb_calls s),
               jobs := map (\<lambda>r. if job_id r = jid
                 then r\<lparr>resume_guide_generated := Some (resume_guide e),
                        prep_guide_generated := Some (prep_questions e),
                        skills_required :=
                          Some (if (case skills_required j of None \<Rightarrow> [] | Some l \<Rightarrow> l) \<noteq> []
                                then (case skills_required j of None \<Rightarrow> [] | Some l \<Rightarrow> l)
                                else extracted_skills e),
                        embedding := Some v,
                        salary_range := estimated_salary_range e\<rparr>
                 else r) (jobs s)\<rparr>)"
proof -
  have db0: "\<not> db_fails env (db_calls s)" using store_answersD [OF db, of 0] by simp
  have db1: "\<not> db_fails env (Suc (db_calls s))" using store_answersD [OF db, of 1] by simp
  have g: "get_job env jid s = (Inr (Some j), s\<lparr>db_calls := Suc (db_calls s)\<rparr>)"
    using db0 row by (simp add: get_job_def db_request_answers)
  show ?thesis
    unfolding enrich_job_def enrich_job_try_def Let_def
    using ai emb db1
    by (simp add: try_except_def bind_io_def g generate_enrichment_def encode_def
        update_job_def db_request_answers)
qed

lemma ingest_posting_enrich:
  assumes c: "rp_company_name job_data = Some company"
    and x: "rp_external_id job_data = Some ext_id"
    and t: "rp_title job_data = Some ttl"
    and d: "rp_description_raw job_data = Some desc_raw" "desc_raw \<noteq> []"
    and h: "sha256_hexdigest env desc_raw \<noteq> []"
    and nokey: "identity_absent company ext_id (jobs s)"
    and nodonor: "enriched_with_hash (sha256_hexdigest env desc_raw) (jobs s) = []"
    and db: "store_answers env (db_calls s) 6"
    and ai: "ai_answer env (ai_calls s) desc_raw
               (case rp_skills_required job_data of None \<Rightarrow> [] | Some l \<Rightarrow> l) ttl (Some company) = Inr e"
    and emb: "emb_answer env (emb_calls s) desc_raw = Inr v"
  shows "ingest_posting env job_data st s =
    (Inr (st\<lparr>new := new st + 1\<rparr>),
     s\<lparr>db_calls := db_calls s + 6, ai_calls := Suc (ai_calls s), emb_calls := Suc (emb_calls s),
       jobs := jobs s @
         [(new_row (fresh_id (jobs s))
             (new_job_data job_data company ext_id ttl desc_raw
                (Some (sha256_hexdigest env desc_raw))))
          \<lparr>resume_guide_generated := Some (resume_guide e),
           prep_guide_generated := Some (prep_questions e),
           skills_required :=
             Some (if (case rp_skills_required job_data of None \<Rightarrow> [] | Some l \<Rightarrow> l) \<noteq> []
                   then (case rp_skills_required job_data of None \<Rightarrow> [] | Some l \<Rightarrow> l)
                   else extracted_skills e),
           embedding := Some v,
           salary_range := estimated_salary_range e,
           status := ''active''\<rparr>]\<rparr>)"
proof -
  have db0: "\<not> db_fails env (db_calls s)" using store_answersD [OF db, of 0] by simp
  have db1: "\<not> db_fails env (Suc (db_calls s))" using store_answersD [OF db, of 1] by simp
  have db2: "\<not> db_fails env (Suc (Suc (db_calls s)))" using store_answersD [OF db, of 2] by simp
  have db5: "\<not> db_fails env (db_calls s + 5)" using store_answersD [OF db, of 5] by simp
  let ?h = "sha256_hexdigest env desc_raw"
  let ?sk = "case rp_skills_required job_data of None \<Rightarrow> [] | Some l \<Rightarrow> l"
  let ?s1 = "s\<lparr>db_calls := Suc (db_calls s)\<rparr>"
  let ?row = "new_row (fresh_id (jobs s))
             (new_job_data job_data company ext_id ttl desc_raw (Some ?h))"
  let ?s2 = "s\<lparr>db_calls := Suc (Suc (db_calls s)), jobs := jobs s @ [?row]\<rparr>"
  let ?s3 = "s\<lparr>db_calls := Suc (Suc (Suc (db_calls s))), jobs := jobs s @ [?row]\<rparr>"
  let ?row4 = "?row\<lparr>resume_guide_generated := Some (resume_guide e),
           prep_guide_generated := Some (prep_questions e),
           skills_required := Some (if ?sk \<noteq> [] then ?sk else extracted_skills e),
           embedding := Some v,
           salary_range := estimated_salary_range e\<rparr>"
  let ?s4 = "s\<lparr>db_calls := db_calls s + 5, ai_calls := Suc (ai_calls s),
       emb_calls := Suc (emb_calls s), jobs := jobs s @ [?row4]\<rparr>"
  have f: "find_job_by_external_id env company ext_id s = (Inr None, ?s1)"
    using nokey db0 by (simp add: find_job_by_external_id_def db_request_answers identity_absent_def)
  have cr: "create_job env (new_job_data job_data company ext_id ttl desc_raw (Some ?h)) ?s1
      = (Inr ?row, ?s2)"
    using db1 by (simp add: create_job_def db_request_answers Let_def)
  have remb: "embedding ?row = None" by (simp add: new_row_def)
  have rid: "job_id ?row = fresh_id (jobs s)" by (simp add: new_row_def)
  have rf: "description_raw ?row = desc_raw" "skills_required ?row = Some ?sk"
    "title ?row = ttl" "company_name ?row = Some company"
    by (simp_all add: new_row_def new_job_data_def)
  have fh: "find_job_by_description_hash env ?h ?s2 = (Inr None, ?s3)"
    using db2 nodonor remb
    by (simp add: find_job_by_description_hash_def db_request_answers enriched_with_hash_def)
  have sa: "store_answers env (db_calls ?s3) 2"
    using store_answersD [OF db, of 3] store_answersD [OF db, of 4]
    by (auto simp: store_answers_def less_Suc_eq numeral_2_eq_2 numeral_3_eq_3 eval_nat_numeral)
  have en: "enrich_job env (job_id ?row) ?s3 = (Inr (), ?s4)"
    using enrich_job_success [of "job_id ?row" ?s3 ?row env e v] sa ai emb
    by (simp add: rid filter_fresh_id map_fresh_id rf)
  have up: "update_job env (job_id ?row) [Status ''active''] ?s4 =
     (Inr (), s\<lparr>db_calls := db_calls s + 6, ai_calls := Suc (ai_calls s),
       emb_calls := Suc (emb_calls s), jobs := jobs s @ [?row4\<lparr>status := ''active''\<rparr>]\<rparr>)"
    using db5 by (simp add: update_job_def db_request_answers rid map_fresh_id)
  have ea: "enrich_and_activate env ?row st ?s3 =
     (Inr (st\<lparr>new := new st + 1\<rparr>),
      s\<lparr>db_calls := db_calls s + 6, ai_calls := Suc (ai_calls s),
       emb_calls := Suc (emb_calls s), jobs := jobs s @ [?row4\<lparr>status := ''active''\<rparr>]\<rparr>)"
    unfolding enrich_and_activate_def by (simp add: bind_io_def en up return_io_def)
  have body: "ingest_posting_try env job_data company ext_id st s =
     (Inr (st\<lparr>new := new st + 1\<rparr>),
      s\<lparr>db_calls := db_calls s + 6, ai_calls := Suc (ai_calls s),
       emb_calls := Suc (emb_calls s), jobs := jobs s @ [?row4\<lparr>status := ''active''\<rparr>]\<rparr>)"
    unfolding ingest_posting_try_def Let_def
    using t d h by (simp add: bind_io_def f cr fh ea)
  show ?thesis
    unfolding ingest_posting_def using c x by (simp add: try_except_def body)
qed


lemma store_answers_shift:
  assumes "store_answers env n (m + k)"
  shows "store_answers env (n + m) k"
  unfolding store_answers_def
proof (intro allI impI)
  fix i assume "i < k"
  then have "m + i < m + k" by simp
  from store_answersD [OF assms this] show "\<not> db_fails env (n + m + i)" by (simp add: add.assoc)
qed

lemma store_answers_less:
  assumes "store_answers env n k" and "k' \<le> k"
  shows "store_answers env n k'"
  using assms by (simp add: store_answers_def)

lemma two_postings_one_generation:
  assumes p1: "rp_company_name p1 = Some c1" "rp_external_id p1 = Some x1"
      "rp_title p1 = Some t1" "rp_description_raw p1 = Some d"
    and p2: "rp_company_name p2 = Some c2" "rp_external_id p2 = Some x2"
      "rp_title p2 = Some t2" "rp_description_raw p2 = Some d"
    and keys: "(c1, x1) \<noteq> (c2, x2)"
    and d: "d \<noteq> []" and h: "sha256_hexdigest env d \<noteq> []"
    and absent: "identity_absent c1 x1 (jobs s)" "identity_absent c2 x2 (jobs s)"
    and nodonor: "enriched_with_hash (sha256_hexdigest env d) (jobs s) = []"
    and db: "store_answers env (db_calls s) 10"
    and ai: "ai_answer env (ai_calls s) d
               (case rp_skills_required p1 of None \<Rightarrow> [] | Some l \<Rightarrow> l) t1 (Some c1) = Inr e"
    and emb: "emb_answer env (emb_calls s) d = Inr v"
  shows "\<exists>r1 r2 s'.
     ingest_loop env [p1, p2] st s =
       (Inr (st\<lparr>new := new st + 2, dedup_hits := dedup_hits st + 1\<rparr>), s') \<and>
     ai_calls s' = Suc (ai_calls s) \<and> emb_calls s' = Suc (emb_calls s) \<and>
     jobs s' = jobs s @ [r1, r2] \<and>
     company_name r1 = Some c1 \<and> external_id r1 = Some x1 \<and>
     company_name r2 = Some c2 \<and> external_id r2 = Some x2 \<and>
     resume_guide_generated r1 = Some (resume_guide e) \<and>
     prep_guide_generated r1 = Some (prep_questions e) \<and>
     embedding r1 = Some v \<and>
     resume_guide_generated r2 = resume_guide_generated r1 \<and>
     prep_guide_generated r2 = prep_guide_generated r1 \<and>
     embedding r2 = embedding r1 \<and>
     status r1 = ''active'' \<and> status r2 = ''active''"
proof -
  let ?h = "sha256_hexdigest env d"
  let ?sk = "case rp_skills_required p1 of None \<Rightarrow> [] | Some l \<Rightarrow> l"
  define r1 where "r1 = (new_row (fresh_id (jobs s)) (new_job_data p1 c1 x1 t1 d (Some ?h)))
          \<lparr>resume_guide_generated := Some (resume_guide e),
           prep_guide_generated := Some (prep_questions e),
           skills_required := Some (if ?sk \<noteq> [] then ?sk else extracted_skills e),
           embedding := Some v,
           salary_range := estimated_salary_range e,
           status := ''active''\<rparr>"
  define s1 where "s1 = s\<lparr>db_calls := db_calls s + 6, ai_calls := Suc (ai_calls s),
       emb_calls := Suc (emb_calls s), jobs := jobs s @ [r1]\<rparr>"
  define st1 where "st1 = st\<lparr>new := new st + 1\<rparr>"
  have db6: "store_answers env (db_calls s) 6"
    using store_answers_less [OF db, of 6] by simp
  have step1: "ingest_posting env p1 st s = (Inr st1, s1)"
    unfolding st1_def s1_def r1_def
    by (rule ingest_posting_enrich [OF p1 d h absent(1) nodonor db6 ai emb])
  have r1: "company_name r1 = Some c1" "external_id r1 = Some x1"
    "description_hash r1 = Some ?h" "embedding r1 = Some v"
    "resume_guide_generated r1 = Some (resume_guide e)"
    "prep_guide_generated r1 = Some (prep_questions e)" "status r1 = ''active''"
    by (simp_all add: r1_def new_row_def new_job_data_def)
  have s1: "jobs s1 = jobs s @ [r1]" "db_calls s1 = db_calls s + 6"
    "ai_calls s1 = Suc (ai_calls s)" "emb_calls s1 = Suc (emb_calls s)"
    by (simp_all add: s1_def)
  have absent2: "identity_absent c2 x2 (jobs s1)"
    using absent(2) keys r1(1,2) by (auto simp: identity_absent_def s1(1))
  have donor2: "enriched_with_hash ?h (jobs s1) = r1 # []"
    using nodonor r1(3,4) by (simp add: enriched_with_hash_def s1(1))
  have db4: "store_answers env (db_calls s1) 4"
    using store_answers_shift [of env "db_calls s" 6 4] db by (simp add: s1(2))
  define r2 where "r2 = (new_row (fresh_id (jobs s1)) (new_job_data p2 c2 x2 t2 d (Some ?h)))
          \<lparr>resume_guide_generated := resume_guide_generated r1,
           prep_guide_generated := prep_guide_generated r1,
           embedding := embedding r1, status := ''active''\<rparr>"
  define s2 where "s2 = s1\<lparr>db_calls := db_calls s1 + 4, jobs := jobs s1 @ [r2]\<rparr>"
  define st2 where "st2 = st1\<lparr>new := new st1 + 1, dedup_hits := dedup_hits st1 + 1\<rparr>"
  have step2: "ingest_posting env p2 st1 s1 = (Inr st2, s2)"
    unfolding st2_def s2_def r2_def
    by (rule ingest_posting_clone [OF p2 d h absent2 donor2 db4])
  have loop: "ingest_loop env [p1, p2] st s = (Inr st2, s2)"
    by (simp only: ingest_loop.simps step1 step2 prod.case sum.case)
  have st2: "st2 = st\<lparr>new := new st + 2, dedup_hits := dedup_hits st + 1\<rparr>"
    by (simp add: st2_def st1_def)
  have r2: "company_name r2 = Some c2" "external_id r2 = Some x2"
    "resume_guide_generated r2 = resume_guide_generated r1"
    "prep_guide_generated r2 = prep_guide_generated r1"
    "embedding r2 = embedding r1" "status r2 = ''active''"
    by (simp_all add: r2_def new_row_def new_job_data_def)
  have s2: "jobs s2 = jobs s @ [r1, r2]" "ai_calls s2 = Suc (ai_calls s)"
    "emb_calls s2 = Suc (emb_calls s)"
    by (simp_all add: s2_def s1)
  from loop st2 r1 r2 s2 show ?thesis by blast
qed


text \<open>How many rows carry an identity key depends on the key columns only.\<close>

lemma key_rows_view:
  "length (filter (\<lambda>j. company_name j = Some c \<and> external_id j = Some x) js) =
   length (filter (\<lambda>k. k = (Some c, Some x)) (map (\<lambda>j. (company_name j, external_id j)) js))"
  by (induction js) auto

lemma identity_unique_view:
  assumes "map (\<lambda>j. (company_name j, external_id j)) js' =
           map (\<lambda>j. (company_name j, external_id j)) js"
  shows "identity_unique p js' = identity_unique p js"
  by (simp add: identity_unique_def key_rows_view assms)

lemma keeps_keys_after_insert:
  "keeps (\<lambda>s. map (\<lambda>j. (company_name j, external_id j)) (jobs s))
     (case desc_hash of
        None \<Rightarrow> enrich_and_activate env created st
      | Some h \<Rightarrow>
          (if h = [] then enrich_and_activate env created st
           else bind_io (find_job_by_description_hash env h) (\<lambda>donor.
                  (case donor of
                     Some d \<Rightarrow> clone_enrichment env created d st
                   | None \<Rightarrow> enrich_and_activate env created st))))"
  unfolding enrich_and_activate_def clone_enrichment_def
  by (auto split: option.split
      intro!: keeps_bind keeps_return keeps_find_hash keeps_cols_update_job keeps_cols_enrich_job)

lemma ingest_posting_no_error:
  assumes run: "ingest_posting env p st s = (Inr st', s')"
    and ok: "errors st' = errors st"
  shows "\<exists>c x. rp_company_name p = Some c \<and> rp_external_id p = Some x \<and>
     ((length (filter (\<lambda>j. company_name j = Some c \<and> external_id j = Some x) (jobs s)) = 1 \<and>
       jobs s' = jobs s) \<or>
      (filter (\<lambda>j. company_name j = Some c \<and> external_id j = Some x) (jobs s) = [] \<and>
       map (\<lambda>j. (company_name j, external_id j)) (jobs s') =
       map (\<lambda>j. (company_name j, external_id j)) (jobs s) @ [(Some c, Some x)]))"
proof -
  from run obtain c where c: "rp_company_name p = Some c"
    by (cases "rp_company_name p") (simp_all add: ingest_posting_def raise_io_def)
  from run c obtain x where x: "rp_external_id p = Some x"
    by (cases "rp_external_id p") (simp_all add: ingest_posting_def raise_io_def)
  from run c x have "try_except (ingest_posting_try env p c x st)
      (\<lambda>e. bind_io log_error (\<lambda>_. return_io (st\<lparr>errors := errors st + 1\<rparr>))) s = (Inr st', s')"
    by (simp add: ingest_posting_def)
  then have body: "ingest_posting_try env p c x st s = (Inr st', s')"
  proof (cases rule: try_except_Inr)
    case 1
    then show ?thesis .
  next
    case (2 e s1)
    then have "st' = st\<lparr>errors := errors st + 1\<rparr>"
      by (simp add: bind_io_def log_error_def return_io_def)
    with ok show ?thesis by simp
  qed
  let ?desc = "case rp_description_raw p of None \<Rightarrow> [] | Some d \<Rightarrow> d"
  let ?hash = "if ?desc \<noteq> [] then Some (sha256_hexdigest env ?desc) else None"
  let ?after = "\<lambda>created. (case ?hash of
                          None \<Rightarrow> enrich_and_activate env created st
                        | Some h \<Rightarrow>
                            (if h = [] then enrich_and_activate env created st
                             else bind_io (find_job_by_description_hash env h) (\<lambda>donor.
                                    (case donor of
                                       Some d \<Rightarrow> clone_enrichment env created d st
                                     | None \<Rightarrow> enrich_and_activate env created st))))"
  from body obtain existing s1 where
    f: "find_job_by_external_id env c x s = (Inr existing, s1)" and
    k1: "(case existing of
         Some _ \<Rightarrow> return_io (st\<lparr>skipped := skipped st + 1\<rparr>)
       | None \<Rightarrow>
           (case rp_title p of
                 None \<Rightarrow> raise_io (KeyError ''title'')
               | Some ttl \<Rightarrow>
                   bind_io (create_job env (new_job_data p c x ttl ?desc ?hash)) ?after)) s1
         = (Inr st', s')"
    unfolding ingest_posting_try_def Let_def by (rule bind_io_Inr)
  from find_ext_result [OF f] have s1: "s1 = s\<lparr>db_calls := Suc (db_calls s)\<rparr>" and
    ms: "maybe_single (filter (\<lambda>j. company_name j = Some c \<and> external_id j = Some x) (jobs s)) = Inr existing"
    by simp_all
  show ?thesis
  proof (cases existing)
    case (Some r)
    with ms have "filter (\<lambda>j. company_name j = Some c \<and> external_id j = Some x) (jobs s) = [r]"
      by (simp add: maybe_single_Some)
    then have "length (filter (\<lambda>j. company_name j = Some c \<and> external_id j = Some x) (jobs s)) = 1"
      by simp
    moreover from k1 Some have "jobs s' = jobs s" by (auto simp add: return_io_def s1)
    ultimately show ?thesis using c x by blast
  next
    case None
    with ms have nokey:
      "filter (\<lambda>j. company_name j = Some c \<and> external_id j = Some x) (jobs s) = []"
      by (simp add: maybe_single_None)
    from k1 None obtain ttl where t: "rp_title p = Some ttl"
      by (cases "rp_title p") (simp_all add: raise_io_def)
    from k1 None t obtain created s2 where
      cr: "create_job env (new_job_data p c x ttl ?desc ?hash) s1 = (Inr created, s2)" and
      k2: "?after created s2 = (Inr st', s')"
      by (auto elim: bind_io_Inr)
    from create_job_result [OF cr] have
      created: "created = new_row (fresh_id (jobs s1)) (new_job_data p c x ttl ?desc ?hash)"
      and s2: "jobs s2 = jobs s @ [created]"
      by (simp_all add: s1)
    have ck: "(company_name created, external_id created) = (Some c, Some x)"
      by (simp add: created new_row_def new_job_data_def)
    from keepsD [OF keeps_keys_after_insert [where desc_hash = ?hash and env = env
        and created = created and st = st], of s2] k2
    have "map (\<lambda>j. (company_name j, external_id j)) (jobs s') =
          map (\<lambda>j. (company_name j, external_id j)) (jobs s2)" by simp
    with s2 ck have "map (\<lambda>j. (company_name j, external_id j)) (jobs s') =
       map (\<lambda>j. (company_name j, external_id j)) (jobs s) @ [(Some c, Some x)]" by simp
    with nokey c x show ?thesis by blast
  qed
qed

lemma ingest_posting_keeps_unique:
  assumes run: "ingest_posting env p st s = (Inr st', s')"
    and ok: "errors st' = errors st"
  shows "identity_unique p (jobs s') \<and>
         (\<forall>q. identity_unique q (jobs s) \<longrightarrow> identity_unique q (jobs s'))"
proof -
  let ?K = "\<lambda>j. (company_name j, external_id j)"
  from ingest_posting_no_error [OF assms] obtain c x where
    c: "rp_company_name p = Some c" and x: "rp_external_id p = Some x" and
    alt: "(length (filter (\<lambda>j. company_name j = Some c \<and> external_id j = Some x) (jobs s)) = 1 \<and>
       jobs s' = jobs s) \<or>
      (filter (\<lambda>j. company_name j = Some c \<and> external_id j = Some x) (jobs s) = [] \<and>
       map ?K (jobs s') = map ?K (jobs s) @ [(Some c, Some x)])"
    by blast
  from alt show ?thesis
  proof
    assume "length (filter (\<lambda>j. company_name j = Some c \<and> external_id j = Some x) (jobs s)) = 1 \<and>
       jobs s' = jobs s"
    with c x show ?thesis by (auto simp: identity_unique_def)
  next
    assume a: "filter (\<lambda>j. company_name j = Some c \<and> external_id j = Some x) (jobs s) = [] \<and>
       map ?K (jobs s') = map ?K (jobs s) @ [(Some c, Some x)]"
    then have zero: "length (filter (\<lambda>k. k = (Some c, Some x)) (map ?K (jobs s))) = 0"
      using key_rows_view [of c x "jobs s"] by simp
    from a have view: "map ?K (jobs s') = map ?K (jobs s) @ [(Some c, Some x)]" by simp
    have p: "identity_unique p (jobs s')"
      unfolding identity_unique_def key_rows_view view using c x zero by simp
    have "identity_unique q (jobs s')" if q: "identity_unique q (jobs s)" for q
    proof -
      from q obtain c' x' where q': "rp_company_name q = Some c'" "rp_external_id q = Some x'"
        "length (filter (\<lambda>k. k = (Some c', Some x')) (map ?K (jobs s))) = 1"
        unfolding identity_unique_def key_rows_view by blast
      with zero have "(Some c, Some x) \<noteq> (Some c', Some x')" by auto
      with q' show ?thesis
        unfolding identity_unique_def key_rows_view view by auto
    qed
    with p show ?thesis by blast
  qed
qed

lemma ingest_posting_errors_mono:
  "ingest_posting env p st s = (Inr st', s') \<Longrightarrow> errors st \<le> errors st'"
  using returnsD [OF returns_ingest_posting, of env p st s st' s']
  by (auto simp: counted_once_def)

lemma ingest_loop_errors_mono:
  "ingest_loop env ps st s = (Inr st', s') \<Longrightarrow> errors st \<le> errors st'"
proof (induction ps arbitrary: st s)
  case Nil
  then show ?case by simp
next
  case (Cons p ps)
  obtain r s1 where step: "ingest_posting env p st s = (r, s1)"
    by (cases "ingest_posting env p st s")
  show ?case
  proof (cases r)
    case (Inl e)
    with Cons.prems step show ?thesis by simp
  next
    case (Inr st1)
    with Cons.prems step have "ingest_loop env ps st1 s1 = (Inr st', s')" by simp
    from Cons.IH [OF this] ingest_posting_errors_mono [of env p st s st1 s1] step Inr
    show ?thesis by simp
  qed
qed

lemma ingest_loop_keeps_unique:
  assumes "ingest_loop env ps st s = (Inr st', s')" and "errors st' = errors st"
  shows "(\<forall>p\<in>set ps. identity_unique p (jobs s')) \<and>
         (\<forall>q. identity_unique q (jobs s) \<longrightarrow> identity_unique q (jobs s'))"
  using assms
proof (induction ps arbitrary: st s)
  case Nil
  then show ?case by simp
next
  case (Cons p ps)
  obtain r s1 where step: "ingest_posting env p st s = (r, s1)"
    by (cases "ingest_posting env p st s")
  show ?case
  proof (cases r)
    case (Inl e)
    with Cons.prems step show ?thesis by simp
  next
    case (Inr st1)
    with step have step1: "ingest_posting env p st s = (Inr st1, s1)" by simp
    with Cons.prems have rest: "ingest_loop env ps st1 s1 = (Inr st', s')" by simp
    from ingest_posting_errors_mono [OF step1] ingest_loop_errors_mono [OF rest] Cons.prems(2)
    have e1: "errors st1 = errors st" and e2: "errors st' = errors st1" by simp_all
    from ingest_posting_keeps_unique [OF step1 e1] have
      a: "identity_unique p (jobs s1)" and
      b: "\<And>q. identity_unique q (jobs s) \<Longrightarrow> identity_unique q (jobs s1)" by blast+
    from Cons.IH [OF rest e2] have
      c: "\<And>p'. p' \<in> set ps \<Longrightarrow> identity_unique p' (jobs s')" and
      d: "\<And>q. identity_unique q (jobs s1) \<Longrightarrow> identity_unique q (jobs s')" by blast+
    from a b c d show ?thesis by auto
  qed
qed


lemma single_row: "length xs = 1 \<Longrightarrow> \<exists>r. xs = [r]"
  by (cases xs) auto

lemma ingest_posting_skip:
  assumes "identity_unique p (jobs s)" and "\<not> db_fails env (db_calls s)"
  shows "ingest_posting env p st s =
    (Inr (st\<lparr>skipped := skipped st + 1\<rparr>), s\<lparr>db_calls := Suc (db_calls s)\<rparr>)"
proof -
  from assms(1) obtain c x where c: "rp_company_name p = Some c"
    and x: "rp_external_id p = Some x"
    and one: "length (filter (\<lambda>j. company_name j = Some c \<and> external_id j = Some x) (jobs s)) = 1"
    unfolding identity_unique_def by blast
  from single_row [OF one] obtain r where
    r: "filter (\<lambda>j. company_name j = Some c \<and> external_id j = Some x) (jobs s) = [r]" by blast
  have f: "find_job_by_external_id env c x s = (Inr (Some r), s\<lparr>db_calls := Suc (db_calls s)\<rparr>)"
    using assms(2) r by (simp add: find_job_by_external_id_def db_request_answers)
  have "ingest_posting_try env p c x st s =
      (Inr (st\<lparr>skipped := skipped st + 1\<rparr>), s\<lparr>db_calls := Suc (db_calls s)\<rparr>)"
    unfolding ingest_posting_try_def by (simp add: bind_io_def f return_io_def)
  then show ?thesis
    unfolding ingest_posting_def using c x by (simp add: try_except_def)
qed

lemma ingest_loop_skip:
  assumes "\<forall>p\<in>set ps. identity_unique p (jobs s)"
    and "store_answers env (db_calls s) (length ps)"
  shows "ingest_loop env ps st s =
    (Inr (st\<lparr>skipped := skipped st + length ps\<rparr>), s\<lparr>db_calls := db_calls s + length ps\<rparr>)"
  using assms
proof (induction ps arbitrary: st s)
  case Nil
  show ?case by simp
next
  case (Cons p ps)
  let ?s1 = "s\<lparr>db_calls := Suc (db_calls s)\<rparr>"
  let ?st1 = "st\<lparr>skipped := skipped st + 1\<rparr>"
  from Cons.prems(2) have db0: "\<not> db_fails env (db_calls s)"
    using store_answersD [of env "db_calls s" "length (p # ps)" 0] by simp
  from Cons.prems(1) have u: "identity_unique p (jobs s)" by simp
  have step: "ingest_posting env p st s = (Inr ?st1, ?s1)"
    by (rule ingest_posting_skip [OF u db0])
  have a: "\<forall>p\<in>set ps. identity_unique p (jobs ?s1)" using Cons.prems(1) by simp
  have b: "store_answers env (db_calls ?s1) (length ps)"
    using store_answers_shift [of env "db_calls s" 1 "length ps"] Cons.prems(2) by simp
  from Cons.IH [OF a b, of ?st1] show ?case
    by (simp add: step)
qed

lemma update_scraping_log_answers:
  assumes "\<not> db_fails env (db_calls s)"
  shows "fst (update_scraping_log env lid data s) = Inr () \<and>
         jobs (snd (update_scraping_log env lid data s)) = jobs s"
  using assms by (simp add: update_scraping_log_def db_request_answers)

lemma insert_scraping_log_answers:
  assumes "\<not> db_fails env (db_calls s)"
  shows "\<exists>row s'. insert_scraping_log env src st started s = (Inr row, s') \<and>
         jobs s' = jobs s \<and> db_calls s' = Suc (db_calls s)"
  using assms by (simp add: insert_scraping_log_def db_request_answers Let_def)

lemma ingest_jobs_run:
  assumes "scraper_answer env = Inr P"
    and "insert_scraping_log env (str_lower env (COMPANY_NAME env)) ''running'' (clock env (clock_reads s))
           (s\<lparr>clock_reads := Suc (clock_reads s)\<rparr>) = (Inr log_entry, s1)"
    and "ingest_loop env P (initial_stats\<lparr>fetched := length P\<rparr>) s1 = (Inr st, s2)"
    and "update_scraping_log env (log_id log_entry)
           [Log_status (final_status st), Jobs_found (fetched st), Jobs_new (new st),
            Jobs_skipped (skipped st), Error_count (errors st),
            Finished_at (clock env (clock_reads s2))]
           (s2\<lparr>clock_reads := Suc (clock_reads s2)\<rparr>) = (Inr (), s')"
  shows "ingest_jobs env s = (Inr st, s')"
  using assms by (simp add: ingest_jobs_def bind_io_def now_iso_def Let_def return_io_def)

lemma ingest_jobs_all_present:
  assumes fetch: "scraper_answer env = Inr P"
    and present: "\<forall>p\<in>set P. identity_unique p (jobs s)"
    and db: "store_answers env (db_calls s) (length P + 2)"
  shows "\<exists>s'. ingest_jobs env s =
      (Inr (initial_stats\<lparr>fetched := length P, skipped := length P\<rparr>), s') \<and> jobs s' = jobs s"
proof -
  let ?s0 = "s\<lparr>clock_reads := Suc (clock_reads s)\<rparr>"
  have db0: "\<not> db_fails env (db_calls ?s0)"
    using store_answersD [OF db, of 0] by simp
  from insert_scraping_log_answers [OF db0] obtain row s1 where
    i: "insert_scraping_log env (str_lower env (COMPANY_NAME env)) ''running''
          (clock env (clock_reads s)) ?s0 = (Inr row, s1)"
    and j0: "jobs s1 = jobs ?s0" and d0: "db_calls s1 = Suc (db_calls ?s0)"
    by blast
  from j0 d0 have j1: "jobs s1 = jobs s" and d1: "db_calls s1 = Suc (db_calls s)"
    by simp_all
  let ?st = "initial_stats\<lparr>fetched := length P\<rparr>"
  have p1: "\<forall>p\<in>set P. identity_unique p (jobs s1)" using present j1 by simp
  have sa1: "store_answers env (db_calls s1) (length P)"
    using store_answers_shift [of env "db_calls s" 1 "length P"] db d1
      store_answers_less [OF db, of "1 + length P"] by simp
  let ?s2 = "s1\<lparr>db_calls := db_calls s1 + length P\<rparr>"
  let ?st2 = "?st\<lparr>skipped := skipped ?st + length P\<rparr>"
  have l: "ingest_loop env P ?st s1 = (Inr ?st2, ?s2)"
    by (rule ingest_loop_skip [OF p1 sa1])
  let ?s3 = "?s2\<lparr>clock_reads := Suc (clock_reads ?s2)\<rparr>"
  have db3: "\<not> db_fails env (db_calls ?s3)"
    using store_answersD [OF db, of "Suc (length P)"] d1 by simp
  let ?u = "update_scraping_log env (log_id row)
        [Log_status (final_status ?st2), Jobs_found (fetched ?st2), Jobs_new (new ?st2),
         Jobs_skipped (skipped ?st2), Error_count (errors ?st2),
         Finished_at (clock env (clock_reads ?s2))] ?s3"
  from update_scraping_log_answers [OF db3] have
    u: "fst ?u = Inr ()" and ju: "jobs (snd ?u) = jobs ?s3" by blast+
  from u have u': "?u = (Inr (), snd ?u)" by (simp add: prod_eq_iff)
  define s' where "s' = snd ?u"
  have run: "ingest_jobs env s = (Inr ?st2, s')"
    unfolding s'_def by (rule ingest_jobs_run [OF fetch i l u'])
  have st2: "?st2 = initial_stats\<lparr>fetched := length P, skipped := length P\<rparr>"
    by (simp add: initial_stats_def)
  from run have "ingest_jobs env s =
      (Inr (initial_stats\<lparr>fetched := length P, skipped := length P\<rparr>), s')"
    by (simp only: st2)
  moreover have "jobs s' = jobs s" unfolding s'_def using ju j1 by simp
  ultimately show ?thesis by blast
qed


text \<open>Which runs return: the error boundaries leave only the unguarded calls.\<close>

lemma try_except_returns:
  assumes "\<And>e s. \<exists>a s'. h e s = (Inr a, s')"
  shows "\<exists>a s'. try_except m h s = (Inr a, s')"
proof (cases "m s")
  case (Pair r s1)
  show ?thesis
  proof (cases r)
    case (Inl e)
    with Pair assms [of e s1] show ?thesis by (simp add: try_except_def)
  next
    case (Inr a)
    with Pair show ?thesis by (simp add: try_except_def)
  qed
qed

lemma ingest_posting_returns:
  assumes "rp_company_name p \<noteq> None" and "rp_external_id p \<noteq> None"
  shows "\<exists>st' s'. ingest_posting env p st s = (Inr st', s')"
proof -
  from assms obtain c x where "rp_company_name p = Some c" "rp_external_id p = Some x" by auto
  then show ?thesis
    unfolding ingest_posting_def
    by (simp add: try_except_returns bind_io_def log_error_def return_io_def)
qed

lemma ingest_loop_returns:
  assumes "\<forall>p\<in>set ps. rp_company_name p \<noteq> None \<and> rp_external_id p \<noteq> None"
  shows "\<exists>st' s'. ingest_loop env ps st s = (Inr st', s')"
  using assms
proof (induction ps arbitrary: st s)
  case Nil
  show ?case by simp
next
  case (Cons p ps)
  from Cons.prems ingest_posting_returns [of p env st s] obtain st1 s1 where
    "ingest_posting env p st s = (Inr st1, s1)" by auto
  moreover from Cons.IH [of st1 s1] Cons.prems obtain st' s' where
    "ingest_loop env ps st1 s1 = (Inr st', s')" by auto
  ultimately show ?case by simp
qed

lemma ingest_jobs_returns:
  assumes fetch: "scraper_answer env = Inr P"
    and keyed: "\<forall>p\<in>set P. rp_company_name p \<noteq> None \<and> rp_external_id p \<noteq> None"
    and db: "\<forall>n. \<not> db_fails env n"
  shows "\<exists>st s'. ingest_jobs env s = (Inr st, s')"
proof -
  let ?s0 = "s\<lparr>clock_reads := Suc (clock_reads s)\<rparr>"
  from db have "\<not> db_fails env (db_calls ?s0)" by simp
  from insert_scraping_log_answers [OF this] obtain row s1 where
    i: "insert_scraping_log env (str_lower env (COMPANY_NAME env)) ''running''
          (clock env (clock_reads s)) ?s0 = (Inr row, s1)" by blast
  from ingest_loop_returns [OF keyed] obtain st s2 where
    l: "ingest_loop env P (initial_stats\<lparr>fetched := length P\<rparr>) s1 = (Inr st, s2)" by blast
  let ?u = "update_scraping_log env (log_id row)
        [Log_status (final_status st), Jobs_found (fetched st), Jobs_new (new st),
         Jobs_skipped (skipped st), Error_count (errors st),
         Finished_at (clock env (clock_reads s2))] (s2\<lparr>clock_reads := Suc (clock_reads s2)\<rparr>)"
  from db have "\<not> db_fails env (db_calls (s2\<lparr>clock_reads := Suc (clock_reads s2)\<rparr>))" by simp
  from update_scraping_log_answers [OF this] have "fst ?u = Inr ()" by blast
  then have u: "?u = (Inr (), snd ?u)" by (simp add: prod_eq_iff)
  from ingest_jobs_run [OF fetch i l u] show ?thesis by blast
qed

text \<open>The sweep: every iteration returns, so the sweep returns once its query is answered.\<close>

lemma reenrich_one_returns: "\<exists>c' s'. reenrich_one env job c s = (Inr c', s')"
  unfolding reenrich_one_def
  by (rule try_except_returns) (simp add: bind_io_def log_error_def return_io_def)

lemma reenrich_batch_returns: "\<exists>c' s'. reenrich_batch env batch c s = (Inr c', s')"
proof (induction batch arbitrary: c s)
  case Nil
  show ?case by simp
next
  case (Cons job rest)
  from reenrich_one_returns [of env job c s] obtain c1 s1 where
    "reenrich_one env job c s = (Inr c1, s1)" by blast
  moreover from Cons.IH [of c1 s1] obtain c' s' where
    "reenrich_batch env rest c1 s1 = (Inr c', s')" by blast
  ultimately show ?case by simp
qed

lemma reenrich_batches_returns:
  "\<exists>c' s'. reenrich_batches env unenriched starts c s = (Inr c', s')"
proof (induction starts arbitrary: c s)
  case Nil
  show ?case by simp
next
  case (Cons batch_start rest)
  from reenrich_batch_returns [of env "take BATCH_SIZE (drop batch_start unenriched)" c s]
  obtain c1 s1 where
    b: "reenrich_batch env (take BATCH_SIZE (drop batch_start unenriched)) c s = (Inr c1, s1)"
    by blast
  have "\<exists>s2. (if batch_start + BATCH_SIZE < length unenriched
                    then sleep BATCH_DELAY_SECS else return_io ()) s1 = (Inr (), s2)"
    by (simp add: sleep_def return_io_def)
  then obtain s2 where p: "(if batch_start + BATCH_SIZE < length unenriched
                    then sleep BATCH_DELAY_SECS else return_io ()) s1 = (Inr (), s2)"
    by blast
  from Cons.IH [of c1 s2] obtain c' s' where
    "reenrich_batches env unenriched rest c1 s2 = (Inr c', s')" by blast
  with b p show ?case by (simp add: Let_def)
qed

lemma reenrich_unenriched_jobs_returns:
  assumes "\<not> db_fails env (db_calls s)"
  shows "\<exists>c s'. reenrich_unenriched_jobs env s = (Inr c, s')"
  unfolding reenrich_unenriched_jobs_def
  using assms reenrich_batches_returns
  by (simp add: bind_io_def db_request_answers Let_def)


text \<open>
  With the store answering, the sweep counts every candidate as a success, whatever the
  generation and embedding capabilities do: \<open>enrich_job\<close> has no way to report a failure.
\<close>

lemma reenrich_one_counts_success:
  assumes "\<forall>n. \<not> db_fails env n"
  shows "fst (reenrich_one env job c s) = Inr (Suc (fst c), snd c)"
proof -
  obtain r s1 where e: "enrich_job env (job_id job) s = (r, s1)"
    by (cases "enrich_job env (job_id job) s")
  with enrich_job_returns [of env "job_id job" s] have r: "r = Inr ()" by simp
  from assms have "\<not> db_fails env (db_calls s1)" by simp
  then have "fst (update_job env (job_id job) [Status ''active''] s1) = Inr ()"
    by (simp add: update_job_def db_request_answers)
  then have u: "update_job env (job_id job) [Status ''active''] s1 =
      (Inr (), snd (update_job env (job_id job) [Status ''active''] s1))"
    by (simp add: prod_eq_iff)
  have "\<exists>s2. (if status job = ''processing''
                 then update_job env (job_id job) [Status ''active'']
                 else return_io ()) s1 = (Inr (), s2)"
  proof (cases "status job = ''processing''")
    case True
    have eq: "(if status job = ''processing''
                 then update_job env (job_id job) [Status ''active'']
                 else return_io ()) = update_job env (job_id job) [Status ''active'']"
      by (rule if_P [OF True])
    show ?thesis unfolding eq using u by blast
  next
    case False
    have eq: "(if status job = ''processing''
                 then update_job env (job_id job) [Status ''active'']
                 else return_io ()) = return_io ()"
      by (rule if_not_P [OF False])
    show ?thesis unfolding eq by (simp add: return_io_def)
  qed
  then obtain s2 where rep: "(if status job = ''processing''
                 then update_job env (job_id job) [Status ''active'']
                 else return_io ()) s1 = (Inr (), s2)" by blast
  show ?thesis
    unfolding reenrich_one_def
    by (simp only: try_except_def bind_io_def e r rep prod.case sum.case return_io_def fst_conv)
qed

text \<open>
  The counters of a run that returns after a successful fetch add up to the number of
  postings, and every iteration that completes raises exactly one of them.
\<close>

lemma ingest_jobs_counts_sum:
  assumes "scraper_answer env = Inr P" and "ingest_jobs env s = (Inr st, s')"
  shows "new st + skipped st + errors st = length P \<and> fetched st = length P \<and>
         (\<forall>job_data st0 s0 st1 s1.
            ingest_posting env job_data st0 s0 = (Inr st1, s1) \<longrightarrow> counted_once st0 st1)"
proof -
  from ingest_jobs_fetched [OF assms] obtain s1 s2 where
    "ingest_loop env P (initial_stats\<lparr>fetched := length P\<rparr>) s1 = (Inr st, s2)" by blast
  from ingest_loop_counts [OF this] show ?thesis
    using returnsD [OF returns_ingest_posting] by (simp add: initial_stats_def)
qed

section \<open>The claims\<close>


text \<open>
  C2, as the code has it. (a) A posting with a title that passes identity dedup, whose
  non-empty description hashes to the description hash of an already-enriched row (non-null
  embedding), and whose four storage requests are answered: \<^verbatim>\<open>ingest_jobs\<close> inserts the row,
  copies the donor's guide, questions and embedding onto it, sets it to \<^verbatim>\<open>active\<close>, counts
  it as new and as a dedup hit, and calls neither the generation nor the embedding
  capability. The donor is the first such row the store returns.
  (b) Two postings in a row with the same non-empty description and different identity keys,
  neither present yet, with no enriched row of that hash beforehand, the store answering and
  the first posting's generation and embedding calls succeeding: exactly one generation call
  is made, and both new rows end with the same guide, questions and embedding.
  Without the success of the first enrichment (b) fails: \<^verbatim>\<open>enrich_job\<close> swallows the error,
  the first row has no embedding and cannot be a donor, and the second posting is enriched by
  a second generation call. That is the counterexample.
\<close>

theorem hash_dedup_reuses_enrichment:
  "(rp_company_name p = Some c \<and> rp_external_id p = Some x \<and> rp_title p = Some ttl \<and>
    rp_description_raw p = Some d \<and> d \<noteq> [] \<and> sha256_hexdigest env d \<noteq> [] \<and>
    identity_absent c x (jobs s) \<and>
    enriched_with_hash (sha256_hexdigest env d) (jobs s) = donor # rest \<and>
    store_answers env (db_calls s) 4 \<longrightarrow>
    (\<exists>row s'.
       ingest_posting env p st s =
         (Inr (st\<lparr>new := new st + 1, dedup_hits := dedup_hits st + 1\<rparr>), s') \<and>
       jobs s' = jobs s @ [row] \<and> company_name row = Some c \<and> external_id row = Some x \<and>
       resume_guide_generated row = resume_guide_generated donor \<and>
       prep_guide_generated row = prep_guide_generated donor \<and>
       embedding row = embedding donor \<and> status row = ''active'' \<and>
       ai_calls s' = ai_calls s \<and> emb_calls s' = emb_calls s)) \<and>
   (rp_company_name p1 = Some c1 \<and> rp_external_id p1 = Some x1 \<and> rp_title p1 = Some t1 \<and>
    rp_description_raw p1 = Some d' \<and>
    rp_company_name p2 = Some c2 \<and> rp_external_id p2 = Some x2 \<and> rp_title p2 = Some t2 \<and>
    rp_description_raw p2 = Some d' \<and>
    (c1, x1) \<noteq> (c2, x2) \<and> d' \<noteq> [] \<and> sha256_hexdigest env d' \<noteq> [] \<and>
    identity_absent c1 x1 (jobs s0) \<and> identity_absent c2 x2 (jobs s0) \<and>
    enriched_with_hash (sha256_hexdigest env d') (jobs s0) = [] \<and>
    store_answers env (db_calls s0) 10 \<and>
    ai_answer env (ai_calls s0) d'
      (case rp_skills_required p1 of None \<Rightarrow> [] | Some l \<Rightarrow> l) t1 (Some c1) = Inr e \<and>
    emb_answer env (emb_calls s0) d' = Inr v \<longrightarrow>
    (\<exists>r1 r2 s'.
       ingest_loop env [p1, p2] st0 s0 =
         (Inr (st0\<lparr>new := new st0 + 2, dedup_hits := dedup_hits st0 + 1\<rparr>), s') \<and>
       ai_calls s' = Suc (ai_calls s0) \<and> emb_calls s' = Suc (emb_calls s0) \<and>
       jobs s' = jobs s0 @ [r1, r2] \<and>
       company_name r1 = Some c1 \<and> external_id r1 = Some x1 \<and>
       company_name r2 = Some c2 \<and> external_id r2 = Some x2 \<and>
       resume_guide_generated r1 = Some (resume_guide e) \<and>
       prep_guide_generated r1 = Some (prep_questions e) \<and>
       embedding r1 = Some v \<and>
       resume_guide_generated r2 = resume_guide_generated r1 \<and>
       prep_guide_generated r2 = prep_guide_generated r1 \<and>
       embedding r2 = embedding r1 \<and>
       status r1 = ''active'' \<and> status r2 = ''active''))"
proof (intro conjI impI)
  assume a: "rp_company_name p = Some c \<and> rp_external_id p = Some x \<and> rp_title p = Some ttl \<and>
    rp_description_raw p = Some d \<and> d \<noteq> [] \<and> sha256_hexdigest env d \<noteq> [] \<and>
    identity_absent c x (jobs s) \<and>
    enriched_with_hash (sha256_hexdigest env d) (jobs s) = donor # rest \<and>
    store_answers env (db_calls s) 4"
  define row where "row = (new_row (fresh_id (jobs s))
             (new_job_data p c x ttl d (Some (sha256_hexdigest env d))))
          \<lparr>resume_guide_generated := resume_guide_generated donor,
           prep_guide_generated := prep_guide_generated donor,
           embedding := embedding donor, status := ''active''\<rparr>"
  define s' where "s' = s\<lparr>db_calls := db_calls s + 4, jobs := jobs s @ [row]\<rparr>"
  from a have a1: "rp_company_name p = Some c" and a2: "rp_external_id p = Some x"
    and a3: "rp_title p = Some ttl" and a4: "rp_description_raw p = Some d" "d \<noteq> []"
    and a5: "sha256_hexdigest env d \<noteq> []" and a6: "identity_absent c x (jobs s)"
    and a7: "enriched_with_hash (sha256_hexdigest env d) (jobs s) = donor # rest"
    and a8: "store_answers env (db_calls s) 4"
    by blast+
  have "ingest_posting env p st s =
      (Inr (st\<lparr>new := new st + 1, dedup_hits := dedup_hits st + 1\<rparr>), s')"
    unfolding s'_def row_def by (rule ingest_posting_clone [OF a1 a2 a3 a4 a5 a6 a7 a8])
  moreover have "jobs s' = jobs s @ [row]" "ai_calls s' = ai_calls s" "emb_calls s' = emb_calls s"
    by (simp_all add: s'_def)
  moreover have "company_name row = Some c" "external_id row = Some x"
    "resume_guide_generated row = resume_guide_generated donor"
    "prep_guide_generated row = prep_guide_generated donor"
    "embedding row = embedding donor" "status row = ''active''"
    by (simp_all add: row_def new_row_def new_job_data_def)
  ultimately show "\<exists>row s'.
       ingest_posting env p st s =
         (Inr (st\<lparr>new := new st + 1, dedup_hits := dedup_hits st + 1\<rparr>), s') \<and>
       jobs s' = jobs s @ [row] \<and> company_name row = Some c \<and> external_id row = Some x \<and>
       resume_guide_generated row = resume_guide_generated donor \<and>
       prep_guide_generated row = prep_guide_generated donor \<and>
       embedding row = embedding donor \<and> status row = ''active'' \<and>
       ai_calls s' = ai_calls s \<and> emb_calls s' = emb_calls s"
    by blast
next
  assume b: "rp_company_name p1 = Some c1 \<and> rp_external_id p1 = Some x1 \<and> rp_title p1 = Some t1 \<and>
    rp_description_raw p1 = Some d' \<and>
    rp_company_name p2 = Some c2 \<and> rp_external_id p2 = Some x2 \<and> rp_title p2 = Some t2 \<and>
    rp_description_raw p2 = Some d' \<and>
    (c1, x1) \<noteq> (c2, x2) \<and> d' \<noteq> [] \<and> sha256_hexdigest env d' \<noteq> [] \<and>
    identity_absent c1 x1 (jobs s0) \<and> identity_absent c2 x2 (jobs s0) \<and>
    enriched_with_hash (sha256_hexdigest env d') (jobs s0) = [] \<and>
    store_answers env (db_calls s0) 10 \<and>
    ai_answer env (ai_calls s0) d'
      (case rp_skills_required p1 of None \<Rightarrow> [] | Some l \<Rightarrow> l) t1 (Some c1) = Inr e \<and>
    emb_answer env (emb_calls s0) d' = Inr v"
  then have q1: "rp_company_name p1 = Some c1" "rp_external_id p1 = Some x1"
      "rp_title p1 = Some t1" "rp_description_raw p1 = Some d'"
    and q2: "rp_company_name p2 = Some c2" "rp_external_id p2 = Some x2"
      "rp_title p2 = Some t2" "rp_description_raw p2 = Some d'"
    and keys: "(c1, x1) \<noteq> (c2, x2)"
    and d: "d' \<noteq> []" and h: "sha256_hexdigest env d' \<noteq> []"
    and absent: "identity_absent c1 x1 (jobs s0)" "identity_absent c2 x2 (jobs s0)"
    and nodonor: "enriched_with_hash (sha256_hexdigest env d') (jobs s0) = []"
    and db: "store_answers env (db_calls s0) 10"
    and ai: "ai_answer env (ai_calls s0) d'
               (case rp_skills_required p1 of None \<Rightarrow> [] | Some l \<Rightarrow> l) t1 (Some c1) = Inr e"
    and emb: "emb_answer env (emb_calls s0) d' = Inr v"
    by blast+
  show "\<exists>r1 r2 s'.
       ingest_loop env [p1, p2] st0 s0 =
         (Inr (st0\<lparr>new := new st0 + 2, dedup_hits := dedup_hits st0 + 1\<rparr>), s') \<and>
       ai_calls s' = Suc (ai_calls s0) \<and> emb_calls s' = Suc (emb_calls s0) \<and>
       jobs s' = jobs s0 @ [r1, r2] \<and>
       company_name r1 = Some c1 \<and> external_id r1 = Some x1 \<and>
       company_name r2 = Some c2 \<and> external_id r2 = Some x2 \<and>
       resume_guide_generated r1 = Some (resume_guide e) \<and>
       prep_guide_generated r1 = Some (prep_questions e) \<and>
       embedding r1 = Some v \<and>
       resume_guide_generated r2 = resume_guide_generated r1 \<and>
       prep_guide_generated r2 = prep_guide_generated r1 \<and>
       embedding r2 = embedding r1 \<and>
       status r1 = ''active'' \<and> status r2 = ''active''"
    by (rule two_postings_one_generation [OF q1 q2 keys d h absent nodonor db ai emb])
qed

theorem hash_dedup_reuses_enrichment_witness:
  "identity_absent ''PwC'' ''R-2'' (jobs store_with_a) \<and>
   enriched_with_hash (sha256_hexdigest pwc_env ''Audit role'') (jobs store_with_a) =
     [hd (jobs store_with_a)] \<and>
   fst (ingest_posting pwc_env posting_b initial_stats store_with_a) =
     Inr (initial_stats\<lparr>new := 1, dedup_hits := 1\<rparr>) \<and>
   ai_calls (snd (ingest_posting pwc_env posting_b initial_stats store_with_a)) =
     ai_calls store_with_a \<and>
   fst (ingest_loop pwc_env [posting_a, posting_b] initial_stats empty_store) =
     Inr (initial_stats\<lparr>new := 2, dedup_hits := 1\<rparr>) \<and>
   ai_calls (snd (ingest_loop pwc_env [posting_a, posting_b] initial_stats empty_store)) = 1"
proof -
  have sa: "store_answers pwc_env n k" for n k
    by (simp add: store_answers_def pwc_env_def)
  have a6: "identity_absent ''PwC'' ''R-2'' (jobs store_with_a)" by code_simp
  have a7: "enriched_with_hash (sha256_hexdigest pwc_env ''Audit role'') (jobs store_with_a) =
     hd (jobs store_with_a) # []" by code_simp
  have A: "rp_company_name posting_b = Some ''PwC'' \<and> rp_external_id posting_b = Some ''R-2'' \<and>
    rp_title posting_b = Some ''Analyst'' \<and>
    rp_description_raw posting_b = Some ''Audit role'' \<and> ''Audit role'' \<noteq> [] \<and>
    sha256_hexdigest pwc_env ''Audit role'' \<noteq> [] \<and>
    identity_absent ''PwC'' ''R-2'' (jobs store_with_a) \<and>
    enriched_with_hash (sha256_hexdigest pwc_env ''Audit role'') (jobs store_with_a) =
      hd (jobs store_with_a) # [] \<and>
    store_answers pwc_env (db_calls store_with_a) 4"
    apply (intro conjI a6 a7 sa)
    apply code_simp+
    done
  have B: "rp_company_name posting_a = Some ''PwC'' \<and> rp_external_id posting_a = Some ''R-1'' \<and>
    rp_title posting_a = Some ''Analyst'' \<and>
    rp_description_raw posting_a = Some ''Audit role'' \<and>
    rp_company_name posting_b = Some ''PwC'' \<and> rp_external_id posting_b = Some ''R-2'' \<and>
    rp_title posting_b = Some ''Analyst'' \<and>
    rp_description_raw posting_b = Some ''Audit role'' \<and>
    (''PwC'', ''R-1'') \<noteq> (''PwC'', ''R-2'') \<and> ''Audit role'' \<noteq> [] \<and>
    sha256_hexdigest pwc_env ''Audit role'' \<noteq> [] \<and>
    identity_absent ''PwC'' ''R-1'' (jobs empty_store) \<and>
    identity_absent ''PwC'' ''R-2'' (jobs empty_store) \<and>
    enriched_with_hash (sha256_hexdigest pwc_env ''Audit role'') (jobs empty_store) = [] \<and>
    store_answers pwc_env (db_calls empty_store) 10 \<and>
    ai_answer pwc_env (ai_calls empty_store) ''Audit role''
      (case rp_skills_required posting_a of None \<Rightarrow> [] | Some l \<Rightarrow> l) ''Analyst'' (Some ''PwC'')
      = Inr sample_enrichment \<and>
    emb_answer pwc_env (emb_calls empty_store) ''Audit role'' = Inr [1, 2, 3]"
    apply (intro conjI sa)
    apply code_simp+
    done
  note T = hash_dedup_reuses_enrichment [where p = posting_b and c = "''PwC''" and x = "''R-2''"
      and ttl = "''Analyst''" and d = "''Audit role''" and env = pwc_env and s = store_with_a
      and donor = "hd (jobs store_with_a)" and rest = "[]" and st = initial_stats
      and ?p1.0 = posting_a and ?c1.0 = "''PwC''" and ?x1.0 = "''R-1''" and ?t1.0 = "''Analyst''"
      and d' = "''Audit role''" and ?p2.0 = posting_b and ?c2.0 = "''PwC''" and ?x2.0 = "''R-2''"
      and ?t2.0 = "''Analyst''" and ?s0.0 = empty_store and e = sample_enrichment
      and v = "[1, 2, 3]" and ?st0.0 = initial_stats]
  from T A obtain s1 where
    r1: "ingest_posting pwc_env posting_b initial_stats store_with_a =
         (Inr (initial_stats\<lparr>new := new initial_stats + 1,
                 dedup_hits := dedup_hits initial_stats + 1\<rparr>), s1)"
    and c1: "ai_calls s1 = ai_calls store_with_a"
    by blast
  from T B obtain s2 where
    r2: "ingest_loop pwc_env [posting_a, posting_b] initial_stats empty_store =
         (Inr (initial_stats\<lparr>new := new initial_stats + 2,
                 dedup_hits := dedup_hits initial_stats + 1\<rparr>), s2)"
    and c2: "ai_calls s2 = Suc (ai_calls empty_store)"
    by blast
  have v: "new initial_stats = 0" "dedup_hits initial_stats = 0" "ai_calls empty_store = 0"
    by (simp_all add: initial_stats_def empty_store_def)
  from a6 a7 r1 c1 r2 c2 show ?thesis by (simp add: v)
qed

theorem failed_first_enrichment_calls_generation_twice:
  "scraper_answer flaky_ai_env = Inr [posting_a, posting_b] \<and>
   rp_description_raw posting_a = rp_description_raw posting_b \<and>
   rp_description_raw posting_a = Some ''Audit role'' \<and>
   rp_external_id posting_a \<noteq> rp_external_id posting_b \<and>
   fst (ingest_jobs flaky_ai_env empty_store) =
     Inr \<lparr>fetched = 2, new = 2, skipped = 0, errors = 0, dedup_hits = 0, error = None\<rparr> \<and>
   ai_calls (snd (ingest_jobs flaky_ai_env empty_store)) = 2 \<and>
   map resume_guide_generated (jobs (snd (ingest_jobs flaky_ai_env empty_store))) =
     [None, Some [''g1'', ''g2'', ''g3'', ''g4'', ''g5'']] \<and>
   map embedding (jobs (snd (ingest_jobs flaky_ai_env empty_store))) = [None, Some [1, 2, 3]]"
  by code_simp

text \<open>
  C3, as the code has it. The stored procedure is atomic, so a race is a sequence of calls,
  and the callers considered are those the store answers (an unreachable store is the
  fail-open case that the scheduler treats apart). When the lock is free at the first call
  (no row, or \<^verbatim>\<open>locked_until\<close> in the past) and the other calls come no later than the winner's
  \<^verbatim>\<open>locked_until\<close>, so that they find the lock held and unexpired, the first call returns true
  and every other call returns false; a call after \<^verbatim>\<open>locked_until\<close> has passed returns true
  again. When the lock is already held and unexpired before the group, every call of the
  group returns false and none returns true: the counterexample.
\<close>

theorem cron_lock_single_winner:
  assumes "locks name = None \<or> (\<exists>u. locks name = Some u \<and> u < t1)"
    and "\<forall>t\<in>set ts. t \<le> t1 + LOCK_TTL_MINUTES"
  shows "fst (acquire_all ((True, t1) # map (Pair True) ts) name locks) =
           True # replicate (length ts) False \<and>
         (\<forall>t'. t1 + LOCK_TTL_MINUTES < t' \<longrightarrow>
            fst (acquire_cron_lock True t' name
                   (snd (acquire_all ((True, t1) # map (Pair True) ts) name locks))) = True) \<and>
         (held name = Some u' \<and> (\<forall>t\<in>set us. t \<le> u') \<longrightarrow>
            fst (acquire_all (map (Pair True) us) name held) = replicate (length us) False)"
proof -
  let ?l1 = "locks(name \<mapsto> t1 + LOCK_TTL_MINUTES)"
  have held: "?l1 name = Some (t1 + LOCK_TTL_MINUTES)" by simp
  have all: "acquire_all ((True, t1) # map (Pair True) ts) name locks =
      (True # replicate (length ts) False, ?l1)"
    using acquire_cron_lock_free [of locks name t1, OF assms(1)]
      acquire_all_held [of ?l1 name "t1 + LOCK_TTL_MINUTES" ts, OF held assms(2)] by simp
  have after: "fst (acquire_cron_lock True t' name ?l1) = True"
    if "t1 + LOCK_TTL_MINUTES < t'" for t'
    using that acquire_cron_lock_free [of ?l1 name t'] by simp
  have before: "fst (acquire_all (map (Pair True) us) name held) = replicate (length us) False"
    if "held name = Some u' \<and> (\<forall>t\<in>set us. t \<le> u')"
    using that acquire_all_held [of held name u' us] by simp
  from all after before show ?thesis by simp
qed

theorem cron_lock_single_winner_witness:
  "Map.empty ''daily_ingestion'' = (None :: nat option) \<and>
   fst (acquire_all [(True, 0), (True, 5), (True, 30)] ''daily_ingestion'' Map.empty) =
     [True, False, False] \<and>
   fst (acquire_cron_lock True 31 ''daily_ingestion''
         (snd (acquire_all [(True, 0), (True, 5), (True, 30)] ''daily_ingestion'' Map.empty))) = True \<and>
   [''daily_ingestion'' \<mapsto> (20::nat)] ''daily_ingestion'' = Some 20 \<and>
   fst (acquire_all [(True, 0), (True, 5), (True, 10)] ''daily_ingestion''
         [''daily_ingestion'' \<mapsto> 20]) = [False, False, False]"
proof -
  have h1: "(Map.empty :: cron_locks) ''daily_ingestion'' = None \<or>
      (\<exists>u. (Map.empty :: cron_locks) ''daily_ingestion'' = Some u \<and> u < 0)" by simp
  have h2: "\<forall>t\<in>set [5, 30]. t \<le> 0 + LOCK_TTL_MINUTES" by (simp add: LOCK_TTL_MINUTES_def)
  have h3: "0 + LOCK_TTL_MINUTES < 31" by (simp add: LOCK_TTL_MINUTES_def)
  have h4: "[''daily_ingestion'' \<mapsto> (20::nat)] ''daily_ingestion'' = Some 20 \<and>
      (\<forall>t\<in>set [0, 5, 10]. t \<le> (20::nat))" by simp
  from cron_lock_single_winner [of Map.empty "''daily_ingestion''" 0 "[5, 30]"
      "[''daily_ingestion'' \<mapsto> 20]" 20 "[0, 5, 10]", OF h1 h2] h3 h4
  show ?thesis by simp
qed

theorem held_lock_has_no_winner:
  "[''daily_ingestion'' \<mapsto> (20::nat)] ''daily_ingestion'' = Some 20 \<and>
   fst (acquire_all [(True, 0), (True, 5), (True, 10)] ''daily_ingestion''
         [''daily_ingestion'' \<mapsto> 20]) = [False, False, False] \<and>
   length (filter id (fst (acquire_all [(True, 0), (True, 5), (True, 10)] ''daily_ingestion''
         [''daily_ingestion'' \<mapsto> 20]))) \<noteq> 1"
  by (simp add: acquire_cron_lock_held)

text \<open>
  C4. A run whose fetch succeeded and that returns has written its log row exactly once
  after creating it, with the counters of the stats and the status \<^verbatim>\<open>failed\<close> when
  \<open>errors > 0\<close> and \<open>new = 0\<close>, \<^verbatim>\<open>partial\<close> when \<open>errors > 0\<close> and \<open>new > 0\<close>, and \<^verbatim>\<open>success\<close>
  otherwise. (The run whose fetch raised is finalised by the handler, see C6.)
\<close>

theorem run_log_finalised_once:
  assumes "scraper_answer env = Inr P" and "ingest_jobs env s = (Inr st, s')"
  shows "\<exists>l. scraping_logs s' = scraping_logs s @ [l] \<and> log_updates l = 1 \<and>
     log_status l = (if errors st > 0 \<and> new st = 0 then ''failed''
                     else if errors st > 0 \<and> new st > 0 then ''partial'' else ''success'') \<and>
     jobs_found l = Some (fetched st) \<and> jobs_new l = Some (new st) \<and>
     jobs_skipped l = Some (skipped st) \<and> error_count l = Some (errors st) \<and>
     finished_at l \<noteq> None"
proof -
  from ingest_jobs_log [OF assms] obtain fin where
    "scraping_logs s' = scraping_logs s @
     [\<lparr>log_id = Suc (max_log_id (scraping_logs s)), source_name = str_lower env (COMPANY_NAME env),
       log_status = final_status st, started_at = clock env (clock_reads s),
       finished_at = Some fin, jobs_found = Some (fetched st), jobs_new = Some (new st),
       jobs_skipped = Some (skipped st), error_count = Some (errors st),
       error_message = None, traceback = None, log_updates = 1\<rparr>]" by blast
  then show ?thesis
    by (intro exI [of _ "\<lparr>log_id = Suc (max_log_id (scraping_logs s)), source_name = str_lower env (COMPANY_NAME env),
       log_status = final_status st, started_at = clock env (clock_reads s),
       finished_at = Some fin, jobs_found = Some (fetched st), jobs_new = Some (new st),
       jobs_skipped = Some (skipped st), error_count = Some (errors st),
       error_message = None, traceback = None, log_updates = 1\<rparr>"])
       (simp add: final_status_cases)
qed

theorem run_log_finalised_once_witness:
  "scraper_answer mixed_env = Inr [posting_a, posting_b, posting_untitled, posting_a] \<and>
   fst (ingest_jobs mixed_env empty_store) =
     Inr \<lparr>fetched = 4, new = 2, skipped = 1, errors = 1, dedup_hits = 1, error = None\<rparr> \<and>
   map log_status (scraping_logs (snd (ingest_jobs mixed_env empty_store))) = [''partial''] \<and>
   map log_updates (scraping_logs (snd (ingest_jobs mixed_env empty_store))) = [1]"
proof -
  let ?st = "\<lparr>fetched = 4, new = 2, skipped = 1, errors = 1, dedup_hits = 1, error = None\<rparr>"
  have h1: "scraper_answer mixed_env = Inr [posting_a, posting_b, posting_untitled, posting_a]"
    by code_simp
  have h2: "fst (ingest_jobs mixed_env empty_store) = Inr ?st" by code_simp
  then have h2': "ingest_jobs mixed_env empty_store = (Inr ?st, snd (ingest_jobs mixed_env empty_store))"
    by (simp add: prod_eq_iff)
  have v: "scraping_logs empty_store = []" by (simp add: empty_store_def)
  from run_log_finalised_once [OF h1 h2'] obtain l where
    "scraping_logs (snd (ingest_jobs mixed_env empty_store)) = scraping_logs empty_store @ [l]"
    "log_updates l = 1"
    "log_status l = (if errors ?st > 0 \<and> new ?st = 0 then ''failed''
                     else if errors ?st > 0 \<and> new ?st > 0 then ''partial'' else ''success'')"
    by blast
  with h1 h2 v show ?thesis by simp
qed

text \<open>
  C5. \<^verbatim>\<open>enrich_job\<close> never raises to its caller: whatever the record fetch, the generation
  capability, the embedding capability or the persistence write raise inside the \<^verbatim>\<open>try\<close>
  block is caught and logged by \<^verbatim>\<open>enrich_job\<close> itself. When no record has the given id,
  \<^verbatim>\<open>enrich_job\<close> returns after the one fetch: no capability is called and the table is
  not written.
\<close>

theorem enrich_job_never_raises:
  "fst (enrich_job env jid s) = Inr () \<and>
   (\<forall>e s'. enrich_job_try env jid s = (Inl e, s') \<longrightarrow>
      logged_errors (snd (enrich_job env jid s)) = Suc (logged_errors s)) \<and>
   ((\<forall>j\<in>set (jobs s). job_id j \<noteq> jid) \<longrightarrow>
      jobs (snd (enrich_job env jid s)) = jobs s \<and>
      ai_calls (snd (enrich_job env jid s)) = ai_calls s \<and>
      emb_calls (snd (enrich_job env jid s)) = emb_calls s \<and>
      db_calls (snd (enrich_job env jid s)) = Suc (db_calls s))"
proof (intro conjI allI impI)
  show "fst (enrich_job env jid s) = Inr ()" by (rule enrich_job_returns)
next
  fix e s' assume "enrich_job_try env jid s = (Inl e, s')"
  then show "logged_errors (snd (enrich_job env jid s)) = Suc (logged_errors s)"
    using enrich_job_try_raise_unlogged [of env jid s e s']
    by (simp add: enrich_job_def try_except_def log_error_def)
next
  assume a: "\<forall>j\<in>set (jobs s). job_id j \<noteq> jid"
  show "jobs (snd (enrich_job env jid s)) = jobs s" by (simp add: enrich_job_absent [OF a])
  show "ai_calls (snd (enrich_job env jid s)) = ai_calls s" by (simp add: enrich_job_absent [OF a])
  show "emb_calls (snd (enrich_job env jid s)) = emb_calls s" by (simp add: enrich_job_absent [OF a])
  show "db_calls (snd (enrich_job env jid s)) = Suc (db_calls s)" by (simp add: enrich_job_absent [OF a])
qed

theorem enrich_job_never_raises_witness:
  "enrich_job_try (pwc_env\<lparr>db_fails := \<lambda>n. True\<rparr>) 1 empty_store =
     (Inl (APIError ''request failed''), empty_store\<lparr>db_calls := 1\<rparr>) \<and>
   jobs empty_store = [] \<and>
   fst (enrich_job (pwc_env\<lparr>db_fails := \<lambda>n. True\<rparr>) 1 empty_store) = Inr () \<and>
   logged_errors (snd (enrich_job (pwc_env\<lparr>db_fails := \<lambda>n. True\<rparr>) 1 empty_store)) = 1 \<and>
   jobs (snd (enrich_job (pwc_env\<lparr>db_fails := \<lambda>n. True\<rparr>) 1 empty_store)) = [] \<and>
   ai_calls (snd (enrich_job (pwc_env\<lparr>db_fails := \<lambda>n. True\<rparr>) 1 empty_store)) = 0 \<and>
   emb_calls (snd (enrich_job (pwc_env\<lparr>db_fails := \<lambda>n. True\<rparr>) 1 empty_store)) = 0 \<and>
   db_calls (snd (enrich_job (pwc_env\<lparr>db_fails := \<lambda>n. True\<rparr>) 1 empty_store)) = 1"
proof -
  have h1: "enrich_job_try (pwc_env\<lparr>db_fails := \<lambda>n. True\<rparr>) 1 empty_store =
     (Inl (APIError ''request failed''), empty_store\<lparr>db_calls := 1\<rparr>)"
    by code_simp
  have h2: "\<forall>j\<in>set (jobs empty_store). job_id j \<noteq> 1"
    by (simp add: empty_store_def)
  have v: "jobs empty_store = []" "logged_errors empty_store = 0" "ai_calls empty_store = 0"
    "emb_calls empty_store = 0" "db_calls empty_store = 0"
    by (simp_all add: empty_store_def)
  from enrich_job_never_raises [of "pwc_env\<lparr>db_fails := \<lambda>n. True\<rparr>" 1 empty_store] h2
  have c: "fst (enrich_job (pwc_env\<lparr>db_fails := \<lambda>n. True\<rparr>) 1 empty_store) = Inr ()"
    "logged_errors (snd (enrich_job (pwc_env\<lparr>db_fails := \<lambda>n. True\<rparr>) 1 empty_store)) = Suc (logged_errors empty_store)"
    "jobs (snd (enrich_job (pwc_env\<lparr>db_fails := \<lambda>n. True\<rparr>) 1 empty_store)) = jobs empty_store"
    "ai_calls (snd (enrich_job (pwc_env\<lparr>db_fails := \<lambda>n. True\<rparr>) 1 empty_store)) = ai_calls empty_store"
    "emb_calls (snd (enrich_job (pwc_env\<lparr>db_fails := \<lambda>n. True\<rparr>) 1 empty_store)) = emb_calls empty_store"
    "db_calls (snd (enrich_job (pwc_env\<lparr>db_fails := \<lambda>n. True\<rparr>) 1 empty_store)) = Suc (db_calls empty_store)"
    using h1 by blast+
  show ?thesis
    by (simp only: h1 c v) simp
qed

text \<open>
  C6, as the code has it. While the fetch call raises, \<^verbatim>\<open>ingest_jobs\<close> processes no posting:
  the jobs table is untouched and neither capability is called. When, in addition, the two
  writes to the run log succeed (the insert before the fetch and the update in the handler),
  \<^verbatim>\<open>ingest_jobs\<close> returns the stats with all counters zero plus the error, and the run's
  log row is at \<^verbatim>\<open>failed\<close> with the message, the traceback and a \<^verbatim>\<open>finished_at\<close> timestamp,
  written once. The update in the handler is not guarded: when it raises,
  \<^verbatim>\<open>ingest_jobs\<close> raises and the row stays at \<^verbatim>\<open>running\<close>, which is the counterexample.
\<close>

theorem fetch_failure_is_recorded:
  assumes "scraper_answer env = Inl exc"
  shows "jobs (snd (ingest_jobs env s)) = jobs s \<and>
         ai_calls (snd (ingest_jobs env s)) = ai_calls s \<and>
         emb_calls (snd (ingest_jobs env s)) = emb_calls s \<and>
         (\<not> db_fails env (db_calls s) \<and> \<not> db_fails env (Suc (db_calls s)) \<longrightarrow>
          (\<exists>l. fst (ingest_jobs env s) =
                 Inr \<lparr>fetched = 0, new = 0, skipped = 0, errors = 0, dedup_hits = 0,
                      error = Some (str exc)\<rparr> \<and>
               scraping_logs (snd (ingest_jobs env s)) = scraping_logs s @ [l] \<and>
               log_status l = ''failed'' \<and> error_message l = Some (str exc) \<and>
               traceback l = Some (traceback_text env exc) \<and>
               finished_at l = Some (clock env (Suc (clock_reads s))) \<and>
               log_updates l = 1))"
  by (simp add: ingest_jobs_fetch_failed [OF assms] initial_stats_def new_log_row_def)

theorem fetch_failure_can_raise:
  "scraper_answer fetch_and_store_down_env = Inl (RuntimeError ''timeout'') \<and>
   fst (ingest_jobs fetch_and_store_down_env empty_store) = Inl (APIError ''request failed'') \<and>
   map log_status (scraping_logs (snd (ingest_jobs fetch_and_store_down_env empty_store))) =
     [''running'']"
  by code_simp

theorem fetch_failure_is_recorded_witness:
  "scraper_answer fetch_down_env = Inl (RuntimeError ''timeout'') \<and>
   jobs (snd (ingest_jobs fetch_down_env empty_store)) = [] \<and>
   fst (ingest_jobs fetch_down_env empty_store) =
     Inr \<lparr>fetched = 0, new = 0, skipped = 0, errors = 0, dedup_hits = 0,
          error = Some ''timeout''\<rparr> \<and>
   map log_status (scraping_logs (snd (ingest_jobs fetch_down_env empty_store))) = [''failed'']"
proof -
  have h: "scraper_answer fetch_down_env = Inl (RuntimeError ''timeout'')" by code_simp
  have d: "\<not> db_fails fetch_down_env (db_calls empty_store) \<and>
           \<not> db_fails fetch_down_env (Suc (db_calls empty_store))" by code_simp
  have v: "jobs empty_store = []" "scraping_logs empty_store = []"
    by (simp_all add: empty_store_def)
  from fetch_failure_is_recorded [OF h, of empty_store] d obtain l where
    "jobs (snd (ingest_jobs fetch_down_env empty_store)) = jobs empty_store"
    "fst (ingest_jobs fetch_down_env empty_store) =
       Inr \<lparr>fetched = 0, new = 0, skipped = 0, errors = 0, dedup_hits = 0,
          error = Some (str (RuntimeError ''timeout''))\<rparr>"
    "scraping_logs (snd (ingest_jobs fetch_down_env empty_store)) = scraping_logs empty_store @ [l]"
    "log_status l = ''failed''"
    by blast
  with h v show ?thesis by simp
qed

text \<open>
  C7 at a failing input. The store holds one row at \<^verbatim>\<open>processing\<close> with guide, questions and
  embedding all missing, and the generation capability raises. \<^verbatim>\<open>enrich_job\<close> swallows the
  exception, so the sweep counts the record as a success (1 success, 0 failed), repairs its
  status to \<^verbatim>\<open>active\<close>, and leaves all three enrichment fields missing.
\<close>

theorem sweep_counts_failed_enrichment_as_success:
  "map (\<lambda>j. (status j, resume_guide_generated j, prep_guide_generated j, embedding j))
     (jobs stuck_store) = [(''processing'', None, None, None)] \<and>
   fst (reenrich_unenriched_jobs ai_down_env stuck_store) = Inr (1, 0) \<and>
   map (\<lambda>j. (status j, resume_guide_generated j, prep_guide_generated j, embedding j))
     (jobs (snd (reenrich_unenriched_jobs ai_down_env stuck_store))) =
     [(''active'', None, None, None)]"
  by code_simp

text \<open>
  C8, as the code has it. When a run has returned without errors and the store answers the
  requests of the next run on the same upstream data, that next run returns \<open>new = 0\<close> and
  \<open>skipped = \<close> the first run's \<open>new + skipped\<close> (all of the fetched postings), with no
  errors, and leaves the jobs table as it was: every posting the first run inserted or
  skipped now matches exactly one row by (company name, external id). The second run's
  \<open>skipped\<close> equals the first run's \<open>new\<close> only when the first run skipped nothing; a posting
  that was already stored before the first run, or that occurs twice in the fetch, is
  skipped by the first run too, which gives the counterexample.
\<close>

theorem rerun_skips_new_and_skipped:
  assumes run1: "ingest_jobs env s = (Inr st1, s1)" and ok: "errors st1 = 0"
    and db: "store_answers env (db_calls s1) (fetched st1 + 2)"
  shows "\<exists>st2 s2. ingest_jobs env s1 = (Inr st2, s2) \<and> new st2 = 0 \<and>
           skipped st2 = new st1 + skipped st1 \<and> errors st2 = 0 \<and> jobs s2 = jobs s1"
proof (cases "scraper_answer env")
  case (Inl exc)
  from store_answersD [OF db, of 0] store_answersD [OF db, of 1]
  have d: "\<not> db_fails env (db_calls s1)" "\<not> db_fails env (Suc (db_calls s1))" by simp_all
  from run1 have st1: "st1 = initial_stats\<lparr>error := Some (str exc)\<rparr>"
    by (simp add: ingest_jobs_fetch_failed [OF Inl] split: if_splits)
  have "fst (ingest_jobs env s1) = Inr (initial_stats\<lparr>error := Some (str exc)\<rparr>) \<and>
        jobs (snd (ingest_jobs env s1)) = jobs s1"
    using d by (simp add: ingest_jobs_fetch_failed [OF Inl])
  then have "ingest_jobs env s1 =
      (Inr (initial_stats\<lparr>error := Some (str exc)\<rparr>), snd (ingest_jobs env s1)) \<and>
      jobs (snd (ingest_jobs env s1)) = jobs s1"
    by (simp add: prod_eq_iff)
  moreover have "new (initial_stats\<lparr>error := Some (str exc)\<rparr>) = 0"
    "skipped (initial_stats\<lparr>error := Some (str exc)\<rparr>) = new st1 + skipped st1"
    "errors (initial_stats\<lparr>error := Some (str exc)\<rparr>) = 0"
    by (simp_all add: st1 initial_stats_def)
  ultimately show ?thesis by blast
next
  case (Inr P)
  from ingest_jobs_fetched [OF Inr run1] obtain log_entry sa sb where
    i: "insert_scraping_log env (str_lower env (COMPANY_NAME env)) ''running'' (clock env (clock_reads s))
        (s\<lparr>clock_reads := Suc (clock_reads s)\<rparr>) = (Inr log_entry, sa)" and
    l: "ingest_loop env P (initial_stats\<lparr>fetched := length P\<rparr>) sa = (Inr st1, sb)" and
    u: "update_scraping_log env (log_id log_entry)
        [Log_status (final_status st1), Jobs_found (fetched st1), Jobs_new (new st1),
         Jobs_skipped (skipped st1), Error_count (errors st1),
         Finished_at (clock env (clock_reads sb))]
        (sb\<lparr>clock_reads := Suc (clock_reads sb)\<rparr>) = (Inr (), s1)" by blast
  from update_scraping_log_result [OF u] have j: "jobs s1 = jobs sb" by simp
  have "errors st1 = errors (initial_stats\<lparr>fetched := length P\<rparr>)"
    using ok by (simp add: initial_stats_def)
  from ingest_loop_keeps_unique [OF l this] have "\<forall>p\<in>set P. identity_unique p (jobs sb)" by blast
  with j have present: "\<forall>p\<in>set P. identity_unique p (jobs s1)" by simp
  from ingest_loop_counts [OF l] ok have
    n: "new st1 + skipped st1 = length P" and f: "fetched st1 = length P"
    by (simp_all add: initial_stats_def)
  from db f have db': "store_answers env (db_calls s1) (length P + 2)" by simp
  from ingest_jobs_all_present [OF Inr present db'] obtain s2 where
    "ingest_jobs env s1 = (Inr (initial_stats\<lparr>fetched := length P, skipped := length P\<rparr>), s2)"
    "jobs s2 = jobs s1" by blast
  moreover have "new (initial_stats\<lparr>fetched := length P, skipped := length P\<rparr>) = 0"
    "skipped (initial_stats\<lparr>fetched := length P, skipped := length P\<rparr>) = new st1 + skipped st1"
    "errors (initial_stats\<lparr>fetched := length P, skipped := length P\<rparr>) = 0"
    by (simp_all add: n initial_stats_def)
  ultimately show ?thesis by blast
qed

theorem rerun_skips_new_and_skipped_witness:
  "fst (ingest_jobs pwc_env empty_store) =
     Inr \<lparr>fetched = 2, new = 2, skipped = 0, errors = 0, dedup_hits = 1, error = None\<rparr> \<and>
   (\<exists>st2 s2. ingest_jobs pwc_env (snd (ingest_jobs pwc_env empty_store)) = (Inr st2, s2) \<and>
      new st2 = 0 \<and> skipped st2 = 2 \<and> errors st2 = 0 \<and>
      jobs s2 = jobs (snd (ingest_jobs pwc_env empty_store)))"
proof -
  let ?st1 = "\<lparr>fetched = 2, new = 2, skipped = 0, errors = 0, dedup_hits = 1, error = None\<rparr>"
  have h1: "fst (ingest_jobs pwc_env empty_store) = Inr ?st1" by code_simp
  then have h1': "ingest_jobs pwc_env empty_store = (Inr ?st1, snd (ingest_jobs pwc_env empty_store))"
    by (simp add: prod_eq_iff)
  have h2: "errors ?st1 = 0" by simp
  have h3: "store_answers pwc_env (db_calls (snd (ingest_jobs pwc_env empty_store))) (fetched ?st1 + 2)"
    by (simp add: store_answers_def pwc_env_def)
  from rerun_skips_new_and_skipped [OF h1' h2 h3] h1 show ?thesis by simp
qed

theorem rerun_skips_more_than_previous_new:
  "scraper_answer pwc_env = Inr [posting_a, posting_b] \<and>
   fst (ingest_jobs pwc_env store_with_a) =
     Inr \<lparr>fetched = 2, new = 1, skipped = 1, errors = 0, dedup_hits = 1, error = None\<rparr> \<and>
   fst (ingest_jobs pwc_env (snd (ingest_jobs pwc_env store_with_a))) =
     Inr \<lparr>fetched = 2, new = 0, skipped = 2, errors = 0, dedup_hits = 0, error = None\<rparr> \<and>
   scraper_answer (pwc_env\<lparr>scraper_answer := Inr [posting_a, posting_a]\<rparr>) =
     Inr [posting_a, posting_a] \<and>
   fst (ingest_jobs (pwc_env\<lparr>scraper_answer := Inr [posting_a, posting_a]\<rparr>) empty_store) =
     Inr \<lparr>fetched = 2, new = 1, skipped = 1, errors = 0, dedup_hits = 0, error = None\<rparr> \<and>
   fst (ingest_jobs (pwc_env\<lparr>scraper_answer := Inr [posting_a, posting_a]\<rparr>)
          (snd (ingest_jobs (pwc_env\<lparr>scraper_answer := Inr [posting_a, posting_a]\<rparr>)
                  empty_store))) =
     Inr \<lparr>fetched = 2, new = 0, skipped = 2, errors = 0, dedup_hits = 0, error = None\<rparr>"
  by code_simp

text \<open>
  C9. On a hash-dedup hit the new row is the inserted row with exactly four columns
  overwritten: guide, questions and embedding from the donor, and the status. Its salary
  range is still null and its skills are the posting's own; no capability was called. (The
  donor of the sample run, enriched by the full path, does carry a salary range.)
\<close>

theorem dedup_hit_leaves_salary_absent:
  assumes "ingest_posting env job_data st s = (Inr st', s')"
    and "dedup_hits st' = Suc (dedup_hits st)"
  shows "\<exists>created donor.
     donor \<in> set (jobs s) \<and> status created = ''processing'' \<and> salary_range created = None \<and>
     skills_required created =
       Some (case rp_skills_required job_data of None \<Rightarrow> [] | Some l \<Rightarrow> l) \<and>
     jobs s' = jobs s @
       [created\<lparr>resume_guide_generated := resume_guide_generated donor,
                prep_guide_generated := prep_guide_generated donor,
                embedding := embedding donor, status := ''active''\<rparr>] \<and>
     salary_range (last (jobs s')) = None \<and>
     skills_required (last (jobs s')) = skills_required created \<and>
     ai_calls s' = ai_calls s \<and> emb_calls s' = emb_calls s"
proof -
  from ingest_posting_dedup_hit [OF assms] obtain company ext_id ttl desc_raw h donor rest where
    donor: "filter (\<lambda>j. description_hash j = Some h \<and> embedding j \<noteq> None) (jobs s) = donor # rest"
    and s': "s' = s\<lparr>db_calls := db_calls s + 4,
            jobs := jobs s @
              [(new_row (fresh_id (jobs s))
                  (new_job_data job_data company ext_id ttl desc_raw (Some h)))
               \<lparr>resume_guide_generated := resume_guide_generated donor,
                prep_guide_generated := prep_guide_generated donor,
                embedding := embedding donor, status := ''active''\<rparr>]\<rparr>"
    by blast
  define created where
    "created = new_row (fresh_id (jobs s)) (new_job_data job_data company ext_id ttl desc_raw (Some h))"
  have "donor \<in> set (donor # rest)" by simp
  then have "donor \<in> set (filter (\<lambda>j. description_hash j = Some h \<and> embedding j \<noteq> None) (jobs s))"
    by (simp only: donor)
  then have d: "donor \<in> set (jobs s)" by simp
  have c: "status created = ''processing''" "salary_range created = None"
    "skills_required created =
       Some (case rp_skills_required job_data of None \<Rightarrow> [] | Some l \<Rightarrow> l)"
    by (simp_all add: created_def new_row_def new_job_data_def)
  have j: "jobs s' = jobs s @
       [created\<lparr>resume_guide_generated := resume_guide_generated donor,
                prep_guide_generated := prep_guide_generated donor,
                embedding := embedding donor, status := ''active''\<rparr>]"
    "ai_calls s' = ai_calls s" "emb_calls s' = emb_calls s"
    by (simp_all add: s' created_def)
  have l: "salary_range (last (jobs s')) = None"
    "skills_required (last (jobs s')) = skills_required created"
    by (simp_all add: j(1) c)
  from d c j l show ?thesis by blast
qed

theorem dedup_hit_leaves_salary_absent_witness:
  "fst (ingest_posting pwc_env posting_b initial_stats store_with_a) =
     Inr (initial_stats\<lparr>new := 1, dedup_hits := 1\<rparr>) \<and>
   map salary_range (jobs store_with_a) = [Some ''10-12''] \<and>
   salary_range (last (jobs (snd (ingest_posting pwc_env posting_b initial_stats store_with_a)))) = None"
proof -
  let ?r = "ingest_posting pwc_env posting_b initial_stats store_with_a"
  have h1: "fst ?r = Inr (initial_stats\<lparr>new := 1, dedup_hits := 1\<rparr>)" by code_simp
  then have h1': "?r = (Inr (initial_stats\<lparr>new := 1, dedup_hits := 1\<rparr>), snd ?r)"
    by (simp add: prod_eq_iff)
  have h2: "dedup_hits (initial_stats\<lparr>new := 1, dedup_hits := 1\<rparr>) = Suc (dedup_hits initial_stats)"
    by (simp add: initial_stats_def)
  have a: "map salary_range (jobs store_with_a) = [Some ''10-12'']" by code_simp
  from dedup_hit_leaves_salary_absent [OF h1' h2]
  have "salary_range (last (jobs (snd ?r))) = None" by blast
  with h1 a show ?thesis by simp
qed

text \<open>
  C10. \<^verbatim>\<open>enrich_job\<close> never writes the status column: whatever happens inside it, every row
  keeps its id, provider, title, description, identity key, apply link, description hash and
  status, so it can only have changed guide, questions, skills, embedding and salary, and a
  row at \<^verbatim>\<open>processing\<close> is still at \<^verbatim>\<open>processing\<close> when \<^verbatim>\<open>enrich_job\<close> returns. The row
  becomes \<^verbatim>\<open>active\<close> by the write that \<^verbatim>\<open>ingest_jobs\<close> makes after \<^verbatim>\<open>enrich_job\<close> has
  returned, or by the status repair of the reconciliation sweep.
\<close>

theorem enrich_job_never_writes_status:
  "map (\<lambda>j. (job_id j, provider_id j, title j, description_raw j, external_id j,
             external_apply_url j, company_name j, description_hash j, status j))
       (jobs (snd (enrich_job env jid s))) =
   map (\<lambda>j. (job_id j, provider_id j, title j, description_raw j, external_id j,
             external_apply_url j, company_name j, description_hash j, status j))
       (jobs s) \<and>
   (enrich_and_activate env created st s = (Inr st', s') \<longrightarrow>
      (\<forall>j\<in>set (jobs s'). job_id j = job_id created \<longrightarrow> status j = ''active'')) \<and>
   (reenrich_one env job c s = (Inr c', s'') \<and> fst c' = Suc (fst c) \<and>
      status job = ''processing'' \<longrightarrow>
      (\<forall>j\<in>set (jobs s''). job_id j = job_id job \<longrightarrow> status j = ''active''))"
proof (intro conjI impI)
  show "map (\<lambda>j. (job_id j, provider_id j, title j, description_raw j, external_id j,
             external_apply_url j, company_name j, description_hash j, status j))
       (jobs (snd (enrich_job env jid s))) =
   map (\<lambda>j. (job_id j, provider_id j, title j, description_raw j, external_id j,
             external_apply_url j, company_name j, description_hash j, status j))
       (jobs s)"
    by (rule keepsD [OF keeps_cols_enrich_job]) simp_all
next
  assume "enrich_and_activate env created st s = (Inr st', s')"
  then show "\<forall>j\<in>set (jobs s'). job_id j = job_id created \<longrightarrow> status j = ''active''"
    by (rule enrich_and_activate_activates)
next
  assume "reenrich_one env job c s = (Inr c', s'') \<and> fst c' = Suc (fst c) \<and>
      status job = ''processing''"
  then show "\<forall>j\<in>set (jobs s''). job_id j = job_id job \<longrightarrow> status j = ''active''"
    using reenrich_one_repairs [of env job c s c' s''] by simp
qed


theorem enrich_job_never_writes_status_witness:
  "fst (enrich_and_activate pwc_env stuck_job initial_stats stuck_store) =
     Inr (initial_stats\<lparr>new := 1\<rparr>) \<and>
   fst (reenrich_one pwc_env stuck_job (0, 0) stuck_store) = Inr (1, 0) \<and>
   status stuck_job = ''processing'' \<and>
   map status (jobs (snd (enrich_job pwc_env 1 stuck_store))) = [''processing''] \<and>
   map status (jobs (snd (enrich_and_activate pwc_env stuck_job initial_stats stuck_store))) =
     [''active''] \<and>
   map status (jobs (snd (reenrich_one pwc_env stuck_job (0, 0) stuck_store))) = [''active'']"
proof -
  let ?K = "\<lambda>j. (job_id j, provider_id j, title j, description_raw j, external_id j,
             external_apply_url j, company_name j, description_hash j, status j)"
  let ?W1 = "enrich_and_activate pwc_env stuck_job initial_stats stuck_store"
  let ?W2 = "reenrich_one pwc_env stuck_job (0, 0) stuck_store"
  have h1: "fst ?W1 = Inr (initial_stats\<lparr>new := 1\<rparr>)" by code_simp
  have h2: "fst ?W2 = Inr (1, 0)" by code_simp
  have h3: "status stuck_job = ''processing''" by code_simp
  have i0: "job_id stuck_job = 1" by code_simp
  have i1: "map job_id (jobs (snd ?W1)) = [1]" by code_simp
  have i2: "map job_id (jobs (snd ?W2)) = [1]" by code_simp
  have s0: "map status (jobs stuck_store) = [''processing'']" by code_simp
  have e1: "?W1 = (Inr (initial_stats\<lparr>new := 1\<rparr>), snd ?W1)"
    using h1 by (simp add: prod_eq_iff)
  have e2: "?W2 = (Inr (1, 0), snd ?W2) \<and> fst (1::nat, 0::nat) = Suc (fst (0::nat, 0::nat)) \<and>
      status stuck_job = ''processing''"
    using h2 h3 by (simp add: prod_eq_iff)
  note T = enrich_job_never_writes_status [of pwc_env 1 stuck_store stuck_job initial_stats
      "initial_stats\<lparr>new := 1\<rparr>" "snd ?W1" stuck_job "(0, 0)" "(1, 0)" "snd ?W2"]
  from T have "map ?K (jobs (snd (enrich_job pwc_env 1 stuck_store))) = map ?K (jobs stuck_store)"
    by (rule conjunct1)
  then have "map (\<lambda>t. snd (snd (snd (snd (snd (snd (snd (snd t))))))))
               (map ?K (jobs (snd (enrich_job pwc_env 1 stuck_store)))) =
             map (\<lambda>t. snd (snd (snd (snd (snd (snd (snd (snd t))))))))
               (map ?K (jobs stuck_store))"
    by (rule arg_cong)
  then have c1: "map status (jobs (snd (enrich_job pwc_env 1 stuck_store))) = [''processing'']"
    using s0 by (simp add: o_def)
  from T e1 have "\<forall>j\<in>set (jobs (snd ?W1)). job_id j = job_id stuck_job \<longrightarrow> status j = ''active''"
    by blast
  then have c2: "map status (jobs (snd ?W1)) = [''active'']"
    using i1 by (intro single_row_status [of _ 1]) (simp_all only: i0)
  from T e2 have "\<forall>j\<in>set (jobs (snd ?W2)). job_id j = job_id stuck_job \<longrightarrow> status j = ''active''"
    by blast
  then have c3: "map status (jobs (snd ?W2)) = [''active'']"
    using i2 by (intro single_row_status [of _ 1]) (simp_all only: i0)
  from h1 h2 h3 c1 c2 c3 show ?thesis by (intro conjI)
qed


end
